theory Spec2Isabelle
  imports Main
begin

text \<open>
  The two watch clients of the repository, \<^verbatim>\<open>WatchIterator\<close> (src/watch_iterator.ts,
  the whole body read at once through the generated client's HTTP library) and
  \<^verbatim>\<open>WatchApi\<close> (the body streamed from \<^verbatim>\<open>fetch\<close> through readline), as functions from
  the configuration, the caller's options and the answer of the transport to the
  events a consumer receives when it pulls the generator to its end, and the failure
  that ends the sequence, if there is one.

  The functions of the language and of Node that the two methods call
  (\<^verbatim>\<open>split\<close>, \<^verbatim>\<open>trim\<close>, \<^verbatim>\<open>JSON.parse\<close>, readline, \<^verbatim>\<open>URLSearchParams\<close>) are written
  out after their specifications; \<^verbatim>\<open>STATUS_CODES\<close>, the \<^verbatim>\<open>URL\<close> constructor,
  \<^verbatim>\<open>AbortSignal.timeout\<close>, \<^verbatim>\<open>Number.prototype.toString\<close>, \<^verbatim>\<open>fetch\<close> and the HTTP
  library are parameters. Time is not modelled: the timeout is the number handed to
  \<^verbatim>\<open>AbortSignal.timeout\<close>.
\<close>

section \<open>JavaScript strings\<close>

text \<open>
  A JavaScript string is a sequence of UTF-16 code units; a code unit is modelled by
  its number. \<open>js\<close> turns an ASCII literal into such a sequence.
\<close>

type_synonym jsstring = "nat list"

definition js :: "string \<Rightarrow> jsstring" where
  "js s = map of_char s"

abbreviation LF :: nat where "LF \<equiv> 10"
abbreviation CR :: nat where "CR \<equiv> 13"

text \<open>
  \<^verbatim>\<open>String.prototype.trim\<close> removes WhiteSpace and LineTerminator code points
  (ECMA-262): TAB, VT, FF, SP, NBSP, ZWNBSP, the category Zs, LF, CR, LS and PS.
\<close>

definition is_js_whitespace :: "nat \<Rightarrow> bool" where
  "is_js_whitespace c \<longleftrightarrow>
     c = 9 \<or> c = 10 \<or> c = 11 \<or> c = 12 \<or> c = 13 \<or> c = 32 \<or> c = 160 \<or> c = 5760 \<or>
     (8192 \<le> c \<and> c \<le> 8202) \<or> c = 8232 \<or> c = 8233 \<or> c = 8239 \<or> c = 8287 \<or>
     c = 12288 \<or> c = 65279"

definition trim :: "jsstring \<Rightarrow> jsstring" where
  "trim s = rev (dropWhile is_js_whitespace (rev (dropWhile is_js_whitespace s)))"

text \<open>\<^verbatim>\<open>bodyText.split('\n')\<close>: the pieces between the separators, always at least one.\<close>

fun split_acc :: "jsstring \<Rightarrow> jsstring \<Rightarrow> jsstring list" where
  "split_acc cur [] = [cur]"
| "split_acc cur (c # cs) =
     (if c = LF then cur # split_acc [] cs else split_acc (cur @ [c]) cs)"

definition split_LF :: "jsstring \<Rightarrow> jsstring list" where
  "split_LF s = split_acc [] s"


section \<open>node:readline\<close>

text \<open>
  \<^verbatim>\<open>createInterface(body)\<close> iterated with \<^verbatim>\<open>for await\<close>: the decoded text is cut at
  every line ending (CR LF, LF, or CR not followed by LF); the text after
  the last line ending is kept in the line buffer and emitted when the input ends,
  provided it is not empty. The text is presented whole: the result does not depend on
  how the transport cuts it into chunks, except that a CR and its LF arriving in
  different chunks more than \<^verbatim>\<open>crlfDelay\<close> apart give one more empty line.
\<close>

definition is_line_ending :: "nat \<Rightarrow> bool" where
  "is_line_ending c \<longleftrightarrow> c = LF \<or> c = CR"

fun readline_acc :: "jsstring \<Rightarrow> jsstring \<Rightarrow> jsstring list" where
  "readline_acc cur [] = (if cur = [] then [] else [cur])"
| "readline_acc cur [c] =
     (if is_line_ending c then [cur] else readline_acc (cur @ [c]) [])"
| "readline_acc cur (c # d # cs) =
     (if c = CR \<and> d = LF then cur # readline_acc [] cs
      else if is_line_ending c then cur # readline_acc [] (d # cs)
      else readline_acc (cur @ [c]) (d # cs))"

definition readline_lines :: "jsstring \<Rightarrow> jsstring list" where
  "readline_lines s = readline_acc [] s"

section \<open>JSON.parse\<close>

text \<open>
  The values \<^verbatim>\<open>JSON.parse\<close> returns. A number is kept as the text of its literal (the
  code under study never computes with it); an object keeps its members in source
  order, duplicates included.
\<close>

datatype json =
    JNull
  | JBool bool
  | JNum jsstring
  | JStr jsstring
  | JArr "json list"
  | JObj "(jsstring \<times> json) list"

datatype js_error = SyntaxError | TypeError

definition is_json_ws :: "nat \<Rightarrow> bool" where
  "is_json_ws c \<longleftrightarrow> c = 32 \<or> c = 9 \<or> c = 10 \<or> c = 13"

definition skip_ws :: "jsstring \<Rightarrow> jsstring" where
  "skip_ws s = dropWhile is_json_ws s"

definition is_digit :: "nat \<Rightarrow> bool" where
  "is_digit c \<longleftrightarrow> 48 \<le> c \<and> c \<le> 57"

definition hex_val :: "nat \<Rightarrow> nat option" where
  "hex_val c =
     (if 48 \<le> c \<and> c \<le> 57 then Some (c - 48)
      else if 65 \<le> c \<and> c \<le> 70 then Some (c - 55)
      else if 97 \<le> c \<and> c \<le> 102 then Some (c - 87)
      else None)"

definition hex4 :: "nat \<Rightarrow> nat \<Rightarrow> nat \<Rightarrow> nat \<Rightarrow> nat option" where
  "hex4 a b c d =
     (case (hex_val a, hex_val b, hex_val c, hex_val d) of
        (Some w, Some x, Some y, Some z) \<Rightarrow> Some (((w * 16 + x) * 16 + y) * 16 + z)
      | _ \<Rightarrow> None)"

definition simple_escape :: "nat \<Rightarrow> nat option" where
  "simple_escape e =
     (if e = 34 then Some 34
      else if e = 92 then Some 92
      else if e = 47 then Some 47
      else if e = 98 then Some 8
      else if e = 102 then Some 12
      else if e = 110 then Some 10
      else if e = 114 then Some 13
      else if e = 116 then Some 9
      else None)"

definition cons_result :: "'a \<Rightarrow> ('a list \<times> 'b) option \<Rightarrow> ('a list \<times> 'b) option" where
  "cons_result x r = (case r of None \<Rightarrow> None | Some (xs, rest) \<Rightarrow> Some (x # xs, rest))"

text \<open>The characters of a string literal after its opening quotation mark.\<close>

fun parse_string_body :: "jsstring \<Rightarrow> (jsstring \<times> jsstring) option" where
  "parse_string_body [] = None"
| "parse_string_body (c # cs) =
     (if c = 34 then Some ([], cs)
      else if c = 92 then
        (case cs of
           [] \<Rightarrow> None
         | e # es \<Rightarrow>
             if e = 117 then
               (case es of
                  h1 # h2 # h3 # h4 # rest \<Rightarrow>
                    (case hex4 h1 h2 h3 h4 of
                       None \<Rightarrow> None
                     | Some u \<Rightarrow> cons_result u (parse_string_body rest))
                | _ \<Rightarrow> None)
             else
               (case simple_escape e of
                  None \<Rightarrow> None
                | Some x \<Rightarrow> cons_result x (parse_string_body es)))
      else if c < 32 then None
      else cons_result c (parse_string_body cs))"

text \<open>
  A number literal: an optional minus, an integer part without a leading zero, an
  optional fraction and an optional exponent, each with at least one digit.
\<close>

definition parse_digits1 :: "jsstring \<Rightarrow> (jsstring \<times> jsstring) option" where
  "parse_digits1 s =
     (if takeWhile is_digit s = [] then None
      else Some (takeWhile is_digit s, dropWhile is_digit s))"

definition parse_int_part :: "jsstring \<Rightarrow> (jsstring \<times> jsstring) option" where
  "parse_int_part s =
     (case s of
        [] \<Rightarrow> None
      | c # cs \<Rightarrow> if c = 48 then Some ([48], cs) else parse_digits1 s)"

definition parse_frac :: "jsstring \<Rightarrow> (jsstring \<times> jsstring) option" where
  "parse_frac s =
     (case s of
        [] \<Rightarrow> Some ([], s)
      | c # cs \<Rightarrow>
          if c = 46 then
            (case parse_digits1 cs of None \<Rightarrow> None | Some (ds, r) \<Rightarrow> Some (c # ds, r))
          else Some ([], s))"

definition parse_exp :: "jsstring \<Rightarrow> (jsstring \<times> jsstring) option" where
  "parse_exp s =
     (case s of
        [] \<Rightarrow> Some ([], s)
      | c # cs \<Rightarrow>
          if c = 101 \<or> c = 69 then
            (case cs of
               [] \<Rightarrow> None
             | g # gs \<Rightarrow>
                 if g = 43 \<or> g = 45 then
                   (case parse_digits1 gs of
                      None \<Rightarrow> None
                    | Some (ds, r) \<Rightarrow> Some (c # g # ds, r))
                 else
                   (case parse_digits1 cs of
                      None \<Rightarrow> None
                    | Some (ds, r) \<Rightarrow> Some (c # ds, r)))
          else Some ([], s))"

definition parse_number :: "jsstring \<Rightarrow> (jsstring \<times> jsstring) option" where
  "parse_number s =
     (let (sign, s1) = (case s of [] \<Rightarrow> ([], s) | c # cs \<Rightarrow> if c = 45 then ([c], cs) else ([], s))
      in case parse_int_part s1 of
           None \<Rightarrow> None
         | Some (ip, s2) \<Rightarrow>
             (case parse_frac s2 of
                None \<Rightarrow> None
              | Some (fp, s3) \<Rightarrow>
                  (case parse_exp s3 of
                     None \<Rightarrow> None
                   | Some (ep, s4) \<Rightarrow> Some (sign @ ip @ fp @ ep, s4))))"

definition parse_literal :: "jsstring \<Rightarrow> json \<Rightarrow> jsstring \<Rightarrow> (json \<times> jsstring) option" where
  "parse_literal word v s =
     (if take (length word) s = word then Some (v, drop (length word) s) else None)"

text \<open>
  The recursive part of the grammar. \<open>parse_value\<close> reads one value after optional
  white space; \<open>parse_elements\<close> reads the elements of a non-empty array up to and
  including the closing bracket, \<open>parse_members\<close> the members of a non-empty object
  up to and including the closing brace. Each returns what it read and the rest of the
  text. The comparisons of lengths make the recursion well-founded; they never fail
  (\<open>parse_elements_unguarded\<close> and \<open>parse_members_unguarded\<close> below). The limits
  of an engine (a stack exhausted by very deep nesting) are not modelled.
\<close>

function parse_value :: "jsstring \<Rightarrow> (json \<times> jsstring) option"
  and parse_elements :: "jsstring \<Rightarrow> (json list \<times> jsstring) option"
  and parse_members :: "jsstring \<Rightarrow> ((jsstring \<times> json) list \<times> jsstring) option"
where
  "parse_value s =
     (case skip_ws s of
        [] \<Rightarrow> None
      | c # cs \<Rightarrow>
          if c = 123 then
            (case skip_ws cs of
               [] \<Rightarrow> None
             | d # ds \<Rightarrow>
                 if d = 125 then Some (JObj [], ds)
                 else (case parse_members (d # ds) of
                         None \<Rightarrow> None
                       | Some (ms, r) \<Rightarrow> Some (JObj ms, r)))
          else if c = 91 then
            (case skip_ws cs of
               [] \<Rightarrow> None
             | d # ds \<Rightarrow>
                 if d = 93 then Some (JArr [], ds)
                 else (case parse_elements (d # ds) of
                         None \<Rightarrow> None
                       | Some (vs, r) \<Rightarrow> Some (JArr vs, r)))
          else if c = 34 then
            (case parse_string_body cs of
               None \<Rightarrow> None
             | Some (str, r) \<Rightarrow> Some (JStr str, r))
          else if c = 116 then parse_literal (js ''true'') (JBool True) (c # cs)
          else if c = 102 then parse_literal (js ''false'') (JBool False) (c # cs)
          else if c = 110 then parse_literal (js ''null'') JNull (c # cs)
          else if c = 45 \<or> is_digit c then
            (case parse_number (c # cs) of
               None \<Rightarrow> None
             | Some (num, r) \<Rightarrow> Some (JNum num, r))
          else None)"
| "parse_elements s =
     (case parse_value s of
        None \<Rightarrow> None
      | Some (v, r) \<Rightarrow>
          (case skip_ws r of
             [] \<Rightarrow> None
           | d # ds \<Rightarrow>
               if d = 93 then Some ([v], ds)
               else if d = 44 \<and> length ds < length s then cons_result v (parse_elements ds)
               else None))"
| "parse_members s =
     (case skip_ws s of
        [] \<Rightarrow> None
      | q # qs \<Rightarrow>
          if q = 34 then
            (case parse_string_body qs of
               None \<Rightarrow> None
             | Some (k, r) \<Rightarrow>
                 (case skip_ws r of
                    [] \<Rightarrow> None
                  | col # r1 \<Rightarrow>
                      if col = 58 \<and> length r1 < length s then
                        (case parse_value r1 of
                           None \<Rightarrow> None
                         | Some (v, r2) \<Rightarrow>
                             (case skip_ws r2 of
                                [] \<Rightarrow> None
                              | d # ds \<Rightarrow>
                                  if d = 125 then Some ([(k, v)], ds)
                                  else if d = 44 \<and> length ds < length s then
                                    cons_result (k, v) (parse_members ds)
                                  else None))
                      else None))
          else None)"
  by pat_completeness auto

termination
proof -
  have shorter: "length cs < length s" if "skip_ws s = c # cs" for s c cs
  proof -
    have "length (skip_ws s) \<le> length s"
      unfolding skip_ws_def by (rule length_dropWhile_le)
    with that show ?thesis by simp
  qed
  show ?thesis
    by (relation "measure (\<lambda>x. case x of
          Inl s \<Rightarrow> 2 * length s
        | Inr (Inl s) \<Rightarrow> 2 * length s + 1
        | Inr (Inr s) \<Rightarrow> 2 * length s + 1)")
       (auto dest!: shorter)
qed

declare parse_value.simps [simp del] parse_elements.simps [simp del] parse_members.simps [simp del]

definition JSON_parse :: "jsstring \<Rightarrow> js_error + json" where
  "JSON_parse text =
     (case parse_value text of
        None \<Rightarrow> Inl SyntaxError
      | Some (v, r) \<Rightarrow> if skip_ws r = [] then Inr v else Inl SyntaxError)"

section \<open>Watch events and the frame loop\<close>

text \<open>
  \<^verbatim>\<open>interface WatchEvent<T> { type: WatchEventType; object: T }\<close>. The type annotation is
  not checked when the program runs: both fields hold whatever the parsed value holds,
  \<open>None\<close> standing for \<^verbatim>\<open>undefined\<close>.
\<close>

record WatchEvent =
  type :: "json option"
  object :: "json option"

text \<open>
  \<^verbatim>\<open>data.type\<close> and \<^verbatim>\<open>data.object\<close>: reading a property of \<^verbatim>\<open>null\<close> throws a TypeError;
  an object gives the value of its last member of that name; every other value, and an
  object without the member, gives \<^verbatim>\<open>undefined\<close> (no prototype defines either name).
\<close>

definition get_property :: "json \<Rightarrow> jsstring \<Rightarrow> js_error + json option" where
  "get_property data name =
     (case data of
        JNull \<Rightarrow> Inl TypeError
      | JObj ms \<Rightarrow> Inr (map_of (rev ms) name)
      | _ \<Rightarrow> Inr None)"

text \<open>The body of the \<^verbatim>\<open>try\<close> block, shared by both classes.\<close>

definition decode_frame :: "jsstring \<Rightarrow> js_error + WatchEvent" where
  "decode_frame line =
     (case JSON_parse line of
        Inl e \<Rightarrow> Inl e
      | Inr data \<Rightarrow>
          (case get_property data (js ''type'') of
             Inl e \<Rightarrow> Inl e
           | Inr t \<Rightarrow>
               (case get_property data (js ''object'') of
                  Inl e \<Rightarrow> Inl e
                | Inr ob \<Rightarrow> Inr \<lparr>type = t, object = ob\<rparr>)))"

text \<open>
  \<^verbatim>\<open>for (const line of lines) { try { ... yield ... } catch { } }\<close>: the events yielded to a
  consumer that pulls until the generator is done.
\<close>

fun decode_lines :: "jsstring list \<Rightarrow> WatchEvent list" where
  "decode_lines [] = []"
| "decode_lines (line # rest) =
     (case decode_frame line of
        Inl e \<Rightarrow> decode_lines rest
      | Inr ev \<Rightarrow> ev # decode_lines rest)"

text \<open>What one frame contributes to the sequence.\<close>

definition frame_events :: "jsstring \<Rightarrow> WatchEvent list" where
  "frame_events line = (case decode_frame line of Inl e \<Rightarrow> [] | Inr ev \<Rightarrow> [ev])"

section \<open>Failures\<close>

text \<open>
  A value thrown by a collaborator: an \<^verbatim>\<open>Error\<close> with its message, or anything else.
  A failed watch ends with a \<^verbatim>\<open>WatchError(message, statusCode?)\<close>, an
  \<^verbatim>\<open>ApiException(code, message, body, headers)\<close>, or a collaborator's value passed on.
\<close>

datatype thrown = Error jsstring | NotAnError

datatype failure =
    WatchError jsstring "nat option"
  | ApiException nat jsstring jsstring
  | Propagated thrown

fun failure_statusCode :: "failure \<Rightarrow> nat option" where
  "failure_statusCode (WatchError message statusCode) = statusCode"
| "failure_statusCode (ApiException code message body) = Some code"
| "failure_statusCode (Propagated t) = None"

fun failure_message :: "failure \<Rightarrow> jsstring option" where
  "failure_message (WatchError message statusCode) = Some message"
| "failure_message (ApiException code message body) = Some message"
| "failure_message (Propagated (Error m)) = Some m"
| "failure_message (Propagated NotAnError) = None"

fun failure_body :: "failure \<Rightarrow> jsstring option" where
  "failure_body (WatchError message statusCode) = None"
| "failure_body (ApiException code message body) = Some body"
| "failure_body (Propagated t) = None"

text \<open>
  The outcome of consuming a watch to its end: the events yielded, in order, and the
  failure that ended the sequence, if any.
\<close>

type_synonym outcome = "WatchEvent list \<times> failure option"

section \<open>The platform\<close>

text \<open>
  \<^verbatim>\<open>STATUS_CODES\<close> of node:http, the \<^verbatim>\<open>URL\<close> constructor and \<^verbatim>\<open>AbortSignal.timeout\<close> are
  parameters: \<open>URL_new href\<close> is the list of search parameters of the parsed address,
  or what the constructor throws; \<open>AbortSignal_timeout ms\<close> is \<open>None\<close> when the
  delay is accepted, and otherwise what is thrown (a RangeError for a delay that is
  not an integer from 0 to 4294967295).
\<close>

type_synonym params = "(jsstring \<times> jsstring) list"

record Node =
  STATUS_CODES :: "nat \<Rightarrow> jsstring option"
  URL_new :: "jsstring \<Rightarrow> thrown + params"
  AbortSignal_timeout :: "int \<Rightarrow> thrown option"

text \<open>
  \<^verbatim>\<open>String.prototype.toWellFormed\<close>: every surrogate code unit that is not part of a
  pair (a high surrogate followed by a low one) becomes U+FFFD.
\<close>

definition is_high_surrogate :: "nat \<Rightarrow> bool" where
  "is_high_surrogate c \<longleftrightarrow> 55296 \<le> c \<and> c \<le> 56319"

definition is_low_surrogate :: "nat \<Rightarrow> bool" where
  "is_low_surrogate c \<longleftrightarrow> 56320 \<le> c \<and> c \<le> 57343"

fun toWellFormed :: "jsstring \<Rightarrow> jsstring" where
  "toWellFormed [] = []"
| "toWellFormed [c] = (if is_high_surrogate c \<or> is_low_surrogate c then [65533] else [c])"
| "toWellFormed (c # d # cs) =
     (if is_high_surrogate c \<and> is_low_surrogate d then c # d # toWellFormed cs
      else if is_high_surrogate c \<or> is_low_surrogate c then 65533 # toWellFormed (d # cs)
      else c # toWellFormed (d # cs))"

text \<open>
  \<^verbatim>\<open>URLSearchParams.set(name, value)\<close> converts both strings with \<^verbatim>\<open>toWellFormed\<close>, then
  gives the first pair of that name the new value and removes the others, or appends
  a pair when there is none.
\<close>

fun set_pair :: "jsstring \<Rightarrow> jsstring \<Rightarrow> params \<Rightarrow> params" where
  "set_pair name v [] = [(name, v)]"
| "set_pair name v (p # ps) =
     (if fst p = name then (name, v) # filter (\<lambda>q. fst q \<noteq> name) ps
      else p # set_pair name v ps)"

definition URLSearchParams_set :: "jsstring \<Rightarrow> jsstring \<Rightarrow> params \<Rightarrow> params" where
  "URLSearchParams_set name v ps = set_pair (toWellFormed name) (toWellFormed v) ps"

text \<open>
  The query string of an address whose search parameters have been set is their
  serialisation (\<^verbatim>\<open>application/x-www-form-urlencoded\<close>): each name and each value is
  encoded in UTF-8, every byte other than an ASCII letter, a digit, \<^verbatim>\<open>*\<close>, \<^verbatim>\<open>-\<close>, \<^verbatim>\<open>.\<close> or
  \<^verbatim>\<open>_\<close> is written as \<^verbatim>\<open>+\<close> (a space) or as \<^verbatim>\<open>%\<close> and two upper-case hexadecimal
  digits, name and value are joined by \<^verbatim>\<open>=\<close> and the pairs by \<^verbatim>\<open>&\<close>. Code units are
  numbers below 65536; a surrogate without its partner is encoded as U+FFFD.
\<close>

fun utf8_encode :: "jsstring \<Rightarrow> nat list" where
  "utf8_encode [] = []"
| "utf8_encode (c # cs) =
     (if c < 128 then c # utf8_encode cs
      else if c < 2048 then (192 + c div 64) # (128 + c mod 64) # utf8_encode cs
      else if is_high_surrogate c then
        (case cs of
           [] \<Rightarrow> [239, 191, 189]
         | d # ds \<Rightarrow>
             if is_low_surrogate d then
               (let cp = 65536 + (c - 55296) * 1024 + (d - 56320)
                in (240 + cp div 262144) # (128 + (cp div 4096) mod 64)
                   # (128 + (cp div 64) mod 64) # (128 + cp mod 64) # utf8_encode ds)
             else 239 # 191 # 189 # utf8_encode cs)
      else if is_low_surrogate c then 239 # 191 # 189 # utf8_encode cs
      else (224 + c div 4096) # (128 + (c div 64) mod 64) # (128 + c mod 64) # utf8_encode cs)"

definition is_urlencoded_safe :: "nat \<Rightarrow> bool" where
  "is_urlencoded_safe b \<longleftrightarrow>
     (48 \<le> b \<and> b \<le> 57) \<or> (65 \<le> b \<and> b \<le> 90) \<or> (97 \<le> b \<and> b \<le> 122) \<or>
     b = 42 \<or> b = 45 \<or> b = 46 \<or> b = 95"

definition hex_digit :: "nat \<Rightarrow> nat" where
  "hex_digit n = (if n < 10 then 48 + n else 55 + n)"

definition percent_encode_byte :: "nat \<Rightarrow> jsstring" where
  "percent_encode_byte b =
     (if is_urlencoded_safe b then [b]
      else if b = 32 then [43]
      else [37, hex_digit (b div 16), hex_digit (b mod 16)])"

definition urlencode :: "jsstring \<Rightarrow> jsstring" where
  "urlencode s = concat (map percent_encode_byte (utf8_encode s))"

fun join_with :: "nat \<Rightarrow> jsstring list \<Rightarrow> jsstring" where
  "join_with sep [] = []"
| "join_with sep [l] = l"
| "join_with sep (l # l' # ls) = l @ sep # join_with sep (l' # ls)"

definition URLSearchParams_toString :: "params \<Rightarrow> jsstring" where
  "URLSearchParams_toString ps =
     join_with 38 (map (\<lambda>p. urlencode (fst p) @ 61 # urlencode (snd p)) ps)"

text \<open>\<^verbatim>\<open>a || b\<close> on strings that may be undefined: the empty string is falsy.\<close>

definition or_else :: "jsstring option \<Rightarrow> jsstring \<Rightarrow> jsstring" where
  "or_else a b = (case a of None \<Rightarrow> b | Some x \<Rightarrow> if x = [] then b else x)"

section \<open>WatchIterator\<close>

text \<open>
  Modelled from the spec: \<^verbatim>\<open>ServerConfiguration.makeRequestContext\<close>, \<^verbatim>\<open>RequestContext\<close> and
  \<^verbatim>\<open>ResponseContext\<close> belong to the generated client under gen/, which is not among the
  sources. A request context holds the address, its search parameters, the method and
  the abort signal (here the delay in milliseconds of its timeout, once set);
  \<^verbatim>\<open>setQueryParam\<close> makes the parameter appear exactly once, as \<^verbatim>\<open>URLSearchParams.set\<close>
  does. Headers and TLS options, the only things authentication touches, are left out.
  Of a response the model keeps the status code and the text that
  \<^verbatim>\<open>response.body.text()\<close> resolves to.
\<close>

datatype HttpMethod = GET

record RequestContext =
  url :: jsstring
  searchParams :: params
  httpMethod :: HttpMethod
  signal :: "int option"

record ResponseContext =
  httpStatusCode :: nat
  body_text :: jsstring

text \<open>
  Modelled from the spec: \<^verbatim>\<open>baseServer.makeRequestContext(path, HttpMethod.GET)\<close>, the
  request for the address made of the base address and the path, with the search
  parameters that address already has.
\<close>

definition makeRequestContext ::
  "Node \<Rightarrow> jsstring \<Rightarrow> jsstring \<Rightarrow> HttpMethod \<Rightarrow> thrown + RequestContext" where
  "makeRequestContext node server endpoint m =
     (case URL_new node (server @ endpoint) of
        Inl t \<Rightarrow> Inl t
      | Inr ps \<Rightarrow> Inr \<lparr>url = server @ endpoint, searchParams = ps, httpMethod = m, signal = None\<rparr>)"

text \<open>
  Modelled from the spec: \<^verbatim>\<open>requestContext.setQueryParam(name, value)\<close>; a parameter
  passed appears in the outbound request exactly once.
\<close>

definition setQueryParam :: "jsstring \<Rightarrow> jsstring \<Rightarrow> RequestContext \<Rightarrow> RequestContext" where
  "setQueryParam name v ctx = ctx\<lparr>searchParams := URLSearchParams_set name v (searchParams ctx)\<rparr>"

text \<open>
  Modelled from the spec: \<^verbatim>\<open>requestContext.setSignal(signal)\<close> attaches the one composed
  cancellation signal; the model keeps the delay of its timeout.
\<close>

definition setSignal :: "int \<Rightarrow> RequestContext \<Rightarrow> RequestContext" where
  "setSignal ms ctx = ctx\<lparr>signal := Some ms\<rparr>"

text \<open>
  The configuration: the base address, the default authentication method if there is
  one (\<open>None\<close> when it resolves, the value it rejects with otherwise) and the HTTP
  library, which answers with a response or rejects.
\<close>

record Configuration =
  baseServer :: jsstring
  authMethods_default :: "(RequestContext \<Rightarrow> thrown option) option"
  httpApi_send :: "RequestContext \<Rightarrow> thrown + ResponseContext"

text \<open>\<^verbatim>\<open>interface WatchOptions\<close>; \<open>None\<close> is an absent (or undefined) option.\<close>

record WatchOptions =
  resourceVersion :: "jsstring option"
  labelSelector :: "jsstring option"
  fieldSelector :: "jsstring option"
  timeoutMs :: "int option"
  allowWatchBookmarks :: "bool option"

text \<open>The query parameters, in the order of the source.\<close>

definition WatchIterator_query :: "WatchOptions \<Rightarrow> RequestContext \<Rightarrow> RequestContext" where
  "WatchIterator_query options ctx0 =
     (let allowWatchBookmarks' = (case allowWatchBookmarks options of None \<Rightarrow> True | Some b \<Rightarrow> b);
          ctx1 = setQueryParam (js ''watch'') (js ''true'') ctx0;
          ctx2 = (case resourceVersion options of
                    None \<Rightarrow> ctx1
                  | Some v \<Rightarrow> setQueryParam (js ''resourceVersion'') v ctx1);
          ctx3 = (case labelSelector options of
                    None \<Rightarrow> ctx2
                  | Some v \<Rightarrow> setQueryParam (js ''labelSelector'') v ctx2);
          ctx4 = (case fieldSelector options of
                    None \<Rightarrow> ctx3
                  | Some v \<Rightarrow> setQueryParam (js ''fieldSelector'') v ctx3)
      in if allowWatchBookmarks'
         then setQueryParam (js ''allowWatchBookmarks'') (js ''true'') ctx4
         else ctx4)"

text \<open>The request context handed to the HTTP library, or what was thrown before.\<close>

definition WatchIterator_request ::
  "Node \<Rightarrow> Configuration \<Rightarrow> jsstring \<Rightarrow> WatchOptions \<Rightarrow> thrown + RequestContext" where
  "WatchIterator_request node cfg path options =
     (let timeoutMs' = (case timeoutMs options of None \<Rightarrow> 30000 | Some ms \<Rightarrow> ms)
      in case makeRequestContext node (baseServer cfg) path GET of
           Inl t \<Rightarrow> Inl t
         | Inr ctx0 \<Rightarrow>
             (let ctx = WatchIterator_query options ctx0
              in case (case authMethods_default cfg of None \<Rightarrow> None | Some auth \<Rightarrow> auth ctx) of
                   Some t \<Rightarrow> Inl t
                 | None \<Rightarrow>
                     (case AbortSignal_timeout node timeoutMs' of
                        Some t \<Rightarrow> Inl t
                      | None \<Rightarrow> Inr (setSignal timeoutMs' ctx))))"

text \<open>
  \<^verbatim>\<open>bodyText.split('\n').filter((line) => line.trim() !== '')\<close> and the loop over it.
\<close>

definition WatchIterator_frames :: "jsstring \<Rightarrow> WatchEvent list" where
  "WatchIterator_frames bodyText =
     decode_lines (filter (\<lambda>line. trim line \<noteq> []) (split_LF bodyText))"

definition WatchIterator_watch ::
  "Node \<Rightarrow> Configuration \<Rightarrow> jsstring \<Rightarrow> WatchOptions \<Rightarrow> outcome" where
  "WatchIterator_watch node cfg path options =
     (case WatchIterator_request node cfg path options of
        Inl t \<Rightarrow> ([], Some (Propagated t))
      | Inr ctx \<Rightarrow>
          (case httpApi_send cfg ctx of
             Inl error \<Rightarrow>
               ([], Some (WatchError
                     (case error of
                        Error message \<Rightarrow> message
                      | NotAnError \<Rightarrow> js ''Failed to connect to watch endpoint'')
                     None))
           | Inr response \<Rightarrow>
               if httpStatusCode response \<noteq> 200 then
                 ([], Some (WatchError
                       (or_else (STATUS_CODES node (httpStatusCode response)) (js ''Unknown Error''))
                       (Some (httpStatusCode response))))
               else (WatchIterator_frames (body_text response), None)))"

text \<open>The response the HTTP library gave to this invocation, if it gave one.\<close>

definition WatchIterator_receives ::
  "Node \<Rightarrow> Configuration \<Rightarrow> jsstring \<Rightarrow> WatchOptions \<Rightarrow> ResponseContext \<Rightarrow> bool" where
  "WatchIterator_receives node cfg path options response =
     (case WatchIterator_request node cfg path options of
        Inl t \<Rightarrow> False
      | Inr ctx \<Rightarrow> httpApi_send cfg ctx = Inr response)"

text \<open>
  \<^verbatim>\<open>createMockConfiguration(baseUrl, responseBody, statusCode)\<close> of the test-suite: an HTTP
  library that answers every request with that status and that text, and an
  authentication that does nothing.
\<close>

definition createMockConfiguration :: "jsstring \<Rightarrow> jsstring \<Rightarrow> nat \<Rightarrow> Configuration" where
  "createMockConfiguration baseUrl responseBody statusCode =
     \<lparr>baseServer = baseUrl,
      authMethods_default = Some (\<lambda>ctx. None),
      httpApi_send = (\<lambda>request. Inr \<lparr>httpStatusCode = statusCode, body_text = responseBody\<rparr>)\<rparr>"

section \<open>WatchApi\<close>

text \<open>
  The authentication method of the configuration is a KubeConfig (it has
  \<^verbatim>\<open>getCurrentCluster\<close>) or something else. Of the KubeConfig the model keeps the server
  of the current cluster, if any, and whether \<^verbatim>\<open>applyToFetchOptions\<close> rejects.
\<close>

record KubeConfig =
  getCurrentCluster :: "jsstring option"
  applyToFetchOptions :: "thrown option"

datatype AuthMethod = KubeConfigAuth KubeConfig | OtherAuth

record WatchApi =
  configuration :: "AuthMethod option"
  requestTimeoutMs :: int

definition WatchApi_new :: "AuthMethod option \<Rightarrow> WatchApi" where
  "WatchApi_new authMethod = \<lparr>configuration = authMethod, requestTimeoutMs = 30000\<rparr>"

definition setRequestTimeout :: "int \<Rightarrow> WatchApi \<Rightarrow> WatchApi" where
  "setRequestTimeout timeout this = this\<lparr>requestTimeoutMs := timeout\<rparr>"

text \<open>
  A defined value of \<^verbatim>\<open>Record<string, string | number | boolean | undefined>\<close>; in the
  list of entries \<open>None\<close> is \<^verbatim>\<open>undefined\<close>. The type of numbers and
  \<^verbatim>\<open>Number.prototype.toString\<close> are parameters.
\<close>

datatype 'n qvalue = QString jsstring | QNumber 'n | QBoolean bool

fun toString :: "('n \<Rightarrow> jsstring) \<Rightarrow> 'n qvalue \<Rightarrow> jsstring" where
  "toString num (QString str) = str"
| "toString num (QNumber n) = num n"
| "toString num (QBoolean b) = (if b then js ''true'' else js ''false'')"

text \<open>
  \<^verbatim>\<open>for (const [key, val] of Object.entries(queryParams)) if (val !== undefined) ...\<close>
\<close>

fun set_queryParams ::
  "('n \<Rightarrow> jsstring) \<Rightarrow> (jsstring \<times> 'n qvalue option) list \<Rightarrow> params \<Rightarrow> params" where
  "set_queryParams num [] ps = ps"
| "set_queryParams num ((key, val) # entries) ps =
     (case val of
        None \<Rightarrow> set_queryParams num entries ps
      | Some v \<Rightarrow> set_queryParams num entries (URLSearchParams_set key (toString num v) ps))"

record FetchRequest =
  watchURL :: jsstring
  watchURL_searchParams :: params
  requestInit_method :: HttpMethod
  requestInit_signal :: int

record FetchResponse =
  status :: nat
  statusText :: jsstring
  body :: jsstring

definition WatchApi_request ::
  "Node \<Rightarrow> ('n \<Rightarrow> jsstring) \<Rightarrow> WatchApi \<Rightarrow> jsstring \<Rightarrow> (jsstring \<times> 'n qvalue option) list
     \<Rightarrow> failure + FetchRequest" where
  "WatchApi_request node num this path queryParams =
     (case configuration this of
        None \<Rightarrow>
          Inl (ApiException 500 (js ''WatchApi requires KubeConfig as the authentication method'') [])
      | Some OtherAuth \<Rightarrow>
          Inl (ApiException 500 (js ''WatchApi requires KubeConfig as the authentication method'') [])
      | Some (KubeConfigAuth kubeConfig) \<Rightarrow>
          (case getCurrentCluster kubeConfig of
             None \<Rightarrow> Inl (ApiException 500 (js ''No active cluster'') [])
           | Some server \<Rightarrow>
               (case URL_new node (server @ path) of
                  Inl t \<Rightarrow> Inl (Propagated t)
                | Inr ps \<Rightarrow>
                    (case applyToFetchOptions kubeConfig of
                       Some t \<Rightarrow> Inl (Propagated t)
                     | None \<Rightarrow>
                         (case AbortSignal_timeout node (requestTimeoutMs this) of
                            Some t \<Rightarrow> Inl (Propagated t)
                          | None \<Rightarrow>
                              Inr \<lparr>watchURL = server @ path,
                                   watchURL_searchParams =
                                     set_queryParams num queryParams
                                       (URLSearchParams_set (js ''watch'') (js ''true'') ps),
                                   requestInit_method = GET,
                                   requestInit_signal = requestTimeoutMs this\<rparr>)))))"

text \<open>\<^verbatim>\<open>createInterface(body)\<close> and the loop over its lines.\<close>

definition WatchApi_frames :: "jsstring \<Rightarrow> WatchEvent list" where
  "WatchApi_frames text = decode_lines (readline_lines text)"

text \<open>
  \<open>fetch\<close> is a parameter. The response arrives with its whole text: an error of the
  stream in the middle of the body is not modelled, nor is the keep-alive set on the
  agent's sockets.
\<close>

definition WatchApi_watch ::
  "Node \<Rightarrow> ('n \<Rightarrow> jsstring) \<Rightarrow> (FetchRequest \<Rightarrow> thrown + FetchResponse) \<Rightarrow> WatchApi \<Rightarrow> jsstring
     \<Rightarrow> (jsstring \<times> 'n qvalue option) list \<Rightarrow> outcome" where
  "WatchApi_watch node num fetch this path queryParams =
     (case WatchApi_request node num this path queryParams of
        Inl f \<Rightarrow> ([], Some f)
      | Inr request \<Rightarrow>
          (case fetch request of
             Inl t \<Rightarrow> ([], Some (Propagated t))
           | Inr response \<Rightarrow>
               if status response \<noteq> 200 then
                 ([], Some (ApiException (status response)
                       (if statusText response \<noteq> [] then statusText response
                        else or_else (STATUS_CODES node (status response))
                               (js ''Internal Server Error''))
                       (body response)))
               else (WatchApi_frames (body response), None)))"

text \<open>The response \<open>fetch\<close> gave to this invocation, if it gave one.\<close>

definition WatchApi_receives ::
  "Node \<Rightarrow> ('n \<Rightarrow> jsstring) \<Rightarrow> (FetchRequest \<Rightarrow> thrown + FetchResponse) \<Rightarrow> WatchApi \<Rightarrow> jsstring
     \<Rightarrow> (jsstring \<times> 'n qvalue option) list \<Rightarrow> FetchResponse \<Rightarrow> bool" where
  "WatchApi_receives node num fetch this path queryParams response =
     (case WatchApi_request node num this path queryParams of
        Inl f \<Rightarrow> False
      | Inr request \<Rightarrow> fetch request = Inr response)"

text \<open>
  The fixtures of the WatchApi tests: \<^verbatim>\<open>createKubeConfigForServer(url)\<close> followed by
  \<^verbatim>\<open>makeApiClient(WatchApi)\<close>, and \<^verbatim>\<open>createTestServer(responseBody, statusCode)\<close>, a
  server that answers every request with that status, its standard reason phrase and
  that body.
\<close>

definition createKubeConfigForServer :: "jsstring \<Rightarrow> KubeConfig" where
  "createKubeConfigForServer serverUrl =
     \<lparr>getCurrentCluster = Some serverUrl, applyToFetchOptions = None\<rparr>"

definition makeApiClient :: "KubeConfig \<Rightarrow> WatchApi" where
  "makeApiClient kc = WatchApi_new (Some (KubeConfigAuth kc))"

definition createTestServer ::
  "Node \<Rightarrow> jsstring \<Rightarrow> nat \<Rightarrow> FetchRequest \<Rightarrow> thrown + FetchResponse" where
  "createTestServer node responseBody statusCode request =
     Inr \<lparr>status = statusCode,
          statusText = or_else (STATUS_CODES node statusCode) (js ''unknown''),
          body = responseBody\<rparr>"

section \<open>Notions of the specification\<close>

text \<open>
  The \<^verbatim>\<open>type\<close> and \<^verbatim>\<open>object\<close> fields of a parsed frame: the member of that name of an
  object, and nothing for any other value.
\<close>

definition type_field :: "json \<Rightarrow> json option" where
  "type_field v = (case v of JObj ms \<Rightarrow> map_of (rev ms) (js ''type'') | _ \<Rightarrow> None)"

definition object_field :: "json \<Rightarrow> json option" where
  "object_field v = (case v of JObj ms \<Rightarrow> map_of (rev ms) (js ''object'') | _ \<Rightarrow> None)"

text \<open>
  "The \<^verbatim>\<open>type\<close> fields of every syntactically valid, non-blank line", in order.
\<close>

fun spec_event_kinds :: "jsstring list \<Rightarrow> json option list" where
  "spec_event_kinds [] = []"
| "spec_event_kinds (line # rest) =
     (case JSON_parse line of
        Inl e \<Rightarrow> spec_event_kinds rest
      | Inr v \<Rightarrow>
          if trim line = [] then spec_event_kinds rest
          else type_field v # spec_event_kinds rest)"

text \<open>
  The lines of a body: the text between one line terminator (LF, CR LF or CR) and
  the next, and the text after the last one when it is not empty.
\<close>

function body_lines :: "jsstring \<Rightarrow> jsstring list" where
  "body_lines s =
     (if s = [] then []
      else takeWhile (\<lambda>c. \<not> is_line_ending c) s #
        (case dropWhile (\<lambda>c. \<not> is_line_ending c) s of
           [] \<Rightarrow> []
         | t # rest \<Rightarrow>
             (case rest of
                [] \<Rightarrow> []
              | u # rest' \<Rightarrow> if t = CR \<and> u = LF then body_lines rest' else body_lines rest)))"
  by pat_completeness auto

termination
proof -
  have shorter: "length rest < length s"
    if "dropWhile (\<lambda>c. \<not> is_line_ending c) s = t # rest" for s :: jsstring and t rest
  proof -
    have "length (dropWhile (\<lambda>c. \<not> is_line_ending c) s) \<le> length s"
      by (rule length_dropWhile_le)
    with that show ?thesis by simp
  qed
  show ?thesis
    by (relation "measure length") (auto dest!: shorter)
qed

declare body_lines.simps [simp del]

text \<open>Every CR of the text is followed at once by LF.\<close>

fun no_lone_CR :: "jsstring \<Rightarrow> bool" where
  "no_lone_CR [] = True"
| "no_lone_CR [c] = (c \<noteq> CR)"
| "no_lone_CR (c # d # cs) = (if c = CR then d = LF \<and> no_lone_CR cs else no_lone_CR (d # cs))"

text \<open>The values a list of search parameters holds under a name, in order.\<close>

definition params_named :: "jsstring \<Rightarrow> params \<Rightarrow> jsstring list" where
  "params_named name ps = map snd (filter (\<lambda>p. fst p = name) ps)"

text \<open>
  The fields of a query string as its reader finds them: the parts between \<^verbatim>\<open>&\<close>, each
  cut at its first \<^verbatim>\<open>=\<close> into a name and a value, both still encoded; and the values
  of the fields of a given name, in order.
\<close>

fun split_on :: "nat \<Rightarrow> jsstring \<Rightarrow> jsstring \<Rightarrow> jsstring list" where
  "split_on sep cur [] = [cur]"
| "split_on sep cur (c # cs) =
     (if c = sep then cur # split_on sep [] cs else split_on sep (cur @ [c]) cs)"

definition query_fields :: "jsstring \<Rightarrow> (jsstring \<times> jsstring) list" where
  "query_fields q =
     map (\<lambda>seg. (takeWhile (\<lambda>c. c \<noteq> 61) seg, drop 1 (dropWhile (\<lambda>c. c \<noteq> 61) seg)))
       (split_on 38 [] q)"

definition fields_named :: "jsstring \<Rightarrow> jsstring \<Rightarrow> jsstring list" where
  "fields_named name q = map snd (filter (\<lambda>f. fst f = name) (query_fields q))"

text \<open>
  The platform as the tests meet it: the addresses they use carry no query, the
  reason phrases of the two status codes they use, and a timeout that takes the
  delays it must.
\<close>

definition test_node :: Node where
  "test_node =
     \<lparr>STATUS_CODES =
        (\<lambda>code. if code = 200 then Some (js ''OK'')
                else if code = 500 then Some (js ''Internal Server Error'')
                else None),
      URL_new = (\<lambda>href. Inr []),
      AbortSignal_timeout =
        (\<lambda>ms. if 0 \<le> ms \<and> ms \<le> 4294967295 then None
              else Some (Error (js ''The value of delay is out of range'')))\<rparr>"

definition no_options :: WatchOptions where
  "no_options =
     \<lparr>resourceVersion = None, labelSelector = None, fieldSelector = None,
      timeoutMs = None, allowWatchBookmarks = None\<rparr>"

section \<open>Test inputs\<close>

text \<open>
  Lines and bodies in the manner of the test-suite, which joins the lines with LF and
  leaves the last one without a line terminator.
\<close>

definition line_added :: jsstring where
  \<open>line_added = js ''{"type":"ADDED","object":{"kind":"Pod"}}''\<close>

definition line_deleted :: jsstring where
  \<open>line_deleted = js ''{"type":"DELETED","object":{"kind":"Pod"}}''\<close>

definition line_error :: jsstring where
  \<open>line_error = js ''{"type":"ERROR","object":{"code":410}}''\<close>

definition line_unknown :: jsstring where
  \<open>line_unknown = js ''{"type":"FOO","object":1,"extra":true}''\<close>

definition line_invalid :: jsstring where
  \<open>line_invalid = js ''{"invalid json''\<close>

definition line_blank :: jsstring where
  "line_blank = js ''   ''"

definition event_added :: WatchEvent where
  "event_added =
     \<lparr>type = Some (JStr (js ''ADDED'')), object = Some (JObj [(js ''kind'', JStr (js ''Pod''))])\<rparr>"

definition event_deleted :: WatchEvent where
  "event_deleted =
     \<lparr>type = Some (JStr (js ''DELETED'')), object = Some (JObj [(js ''kind'', JStr (js ''Pod''))])\<rparr>"





definition body_lone_CR :: jsstring where
  "body_lone_CR = line_added @ CR # line_deleted"

definition body_CRLF :: jsstring where
  "body_CRLF = line_added @ CR # LF # line_invalid @ CR # LF # line_deleted @ [CR, LF]"


definition test_server :: jsstring where
  "test_server = js ''http://127.0.0.1:8080''"

definition pods_path :: jsstring where
  "pods_path = js ''/api/v1/namespaces/default/pods''"

text \<open>The options and the query parameters of the tests "should pass query parameters".\<close>

definition test_options :: WatchOptions where
  "test_options =
     \<lparr>resourceVersion = Some (js ''12345''), labelSelector = Some (js ''app=nginx''),
      fieldSelector = Some (js ''metadata.name=my-pod''), timeoutMs = None,
      allowWatchBookmarks = None\<rparr>"

definition test_queryParams :: "(jsstring \<times> int qvalue option) list" where
  "test_queryParams =
     [(js ''resourceVersion'', Some (QString (js ''12345''))),
      (js ''labelSelector'', Some (QString (js ''app=nginx''))),
      (js ''fieldSelector'', Some (QString (js ''metadata.name=my-pod''))),
      (js ''allowWatchBookmarks'', Some (QBoolean True))]"

text \<open>
  A map with a key outside the recognised options, a number and an undefined value,
  and \<^verbatim>\<open>Number.prototype.toString\<close> on the one number it holds.
\<close>

definition test_extra_queryParams :: "(jsstring \<times> int qvalue option) list" where
  "test_extra_queryParams =
     [(js ''limit'', Some (QNumber 5)), (js ''pretty'', None),
      (js ''labelSelector'', Some (QString (js ''app=nginx'')))]"

definition test_Number_toString :: "int \<Rightarrow> jsstring" where
  "test_Number_toString n = (if n = 5 then js ''5'' else [])"

section \<open>The parser consumes what it reads\<close>

lemma cons_result_Some:
  "cons_result x r = Some (ys, rest) \<longleftrightarrow> (\<exists>xs. r = Some (xs, rest) \<and> ys = x # xs)"
  by (auto simp: cons_result_def split: option.splits)

lemma parse_string_body_shorter:
  "parse_string_body s = Some (str, r) \<Longrightarrow> length r < length s"
proof (induction s arbitrary: str r rule: parse_string_body.induct)
  case 1
  then show ?case by simp
next
  case (2 c cs)
  then show ?case
    by (auto simp: cons_result_Some split: if_splits list.splits option.splits)
       (fastforce dest: less_SucI)+
qed

lemma parse_digits1_shorter: "parse_digits1 s = Some (ds, r) \<Longrightarrow> length r < length s"
proof -
  assume h: "parse_digits1 s = Some (ds, r)"
  then have "takeWhile is_digit s \<noteq> []" "r = dropWhile is_digit s"
    by (auto simp: parse_digits1_def split: if_splits)
  moreover have "length (takeWhile is_digit s) + length (dropWhile is_digit s) = length s"
    by (metis length_append takeWhile_dropWhile_id)
  ultimately show ?thesis by (cases "takeWhile is_digit s") auto
qed

lemma parse_int_part_shorter: "parse_int_part s = Some (ip, r) \<Longrightarrow> length r < length s"
  by (auto simp: parse_int_part_def split: list.splits if_splits dest: parse_digits1_shorter)

lemma parse_frac_shorter: "parse_frac s = Some (fp, r) \<Longrightarrow> length r \<le> length s"
  by (auto simp: parse_frac_def split: list.splits if_splits option.splits
        dest!: parse_digits1_shorter)

lemma parse_exp_shorter: "parse_exp s = Some (ep, r) \<Longrightarrow> length r \<le> length s"
  by (auto simp: parse_exp_def split: list.splits if_splits option.splits
        dest!: parse_digits1_shorter)

lemma parse_number_shorter: "parse_number s = Some (num, r) \<Longrightarrow> length r < length s"
  by (auto simp: parse_number_def split: list.splits if_splits option.splits prod.splits
        dest!: parse_int_part_shorter parse_frac_shorter parse_exp_shorter)

lemma parse_literal_shorter:
  "word \<noteq> [] \<Longrightarrow> parse_literal word v s = Some (w, r) \<Longrightarrow> length r < length s"
  by (cases s) (auto simp: parse_literal_def split: if_splits)

lemma skip_ws_length: "length (skip_ws s) \<le> length s"
  unfolding skip_ws_def by (rule length_dropWhile_le)

lemma skip_ws_Cons_length: "skip_ws s = c # cs \<Longrightarrow> length cs < length s"
  using skip_ws_length [of s] by simp

lemma parse_shorter:
  "parse_value s = Some (v, r) \<Longrightarrow> length r < length s"
  "parse_elements s1 = Some (vs, r1) \<Longrightarrow> length r1 < length s1"
  "parse_members s2 = Some (ms, r2) \<Longrightarrow> length r2 < length s2"
proof (induction s and s1 and s2 arbitrary: v r and vs r1 and ms r2
    rule: parse_value_parse_elements_parse_members.induct)
  case (1 s)
  from "1.prems" obtain c cs where sk: "skip_ws s = c # cs"
    by (subst (asm) parse_value.simps) (auto split: list.splits)
  then have cs: "length cs < length s" by (rule skip_ws_Cons_length)
  consider (obj) "c = 123" | (arr) "c \<noteq> 123" "c = 91" | (other) "c \<noteq> 123" "c \<noteq> 91"
    by blast
  then show ?case
  proof cases
    case obj
    with "1.prems" sk obtain d ds where sd: "skip_ws cs = d # ds"
      by (subst (asm) parse_value.simps) (auto split: list.splits)
    then have ds: "length ds < length cs" by (rule skip_ws_Cons_length)
    show ?thesis
    proof (cases "d = 125")
      case True
      with "1.prems" sk sd obj have "r = ds"
        by (subst (asm) parse_value.simps) simp
      with ds cs show ?thesis by simp
    next
      case False
      with "1.prems" sk sd obj obtain ms where "parse_members (d # ds) = Some (ms, r)"
        by (subst (asm) parse_value.simps) (auto split: option.splits)
      with "1.IH"(1) [OF sk obj sd False] have "length r < length (d # ds)" by simp
      with ds cs show ?thesis by simp
    qed
  next
    case arr
    with "1.prems" sk obtain d ds where sd: "skip_ws cs = d # ds"
      by (subst (asm) parse_value.simps) (auto split: list.splits)
    then have ds: "length ds < length cs" by (rule skip_ws_Cons_length)
    show ?thesis
    proof (cases "d = 93")
      case True
      with "1.prems" sk sd arr have "r = ds"
        by (subst (asm) parse_value.simps) simp
      with ds cs show ?thesis by simp
    next
      case False
      with "1.prems" sk sd arr obtain vs where "parse_elements (d # ds) = Some (vs, r)"
        by (subst (asm) parse_value.simps) (auto split: option.splits)
      with "1.IH"(2) [OF sk arr sd False] have "length r < length (d # ds)" by simp
      with ds cs show ?thesis by simp
    qed
  next
    case other
    have "length r < length (c # cs)"
      using "1.prems" sk other
      by (subst (asm) parse_value.simps)
         (auto split: if_splits option.splits simp: js_def
            dest!: parse_string_body_shorter parse_number_shorter
              parse_literal_shorter [rotated])
    with cs show ?thesis by simp
  qed
next
  case (2 s)
  from "2.prems" obtain v r where pv: "parse_value s = Some (v, r)"
    by (subst (asm) parse_elements.simps) (auto split: option.splits)
  then have r: "length r < length s" by (rule "2.IH"(1))
  from "2.prems" pv obtain d ds where sd: "skip_ws r = d # ds"
    by (subst (asm) parse_elements.simps) (auto split: list.splits)
  then have ds: "length ds < length r" by (rule skip_ws_Cons_length)
  show ?case
  proof (cases "d = 93")
    case True
    with "2.prems" pv sd have "r1 = ds"
      by (subst (asm) parse_elements.simps) simp
    with ds r show ?thesis by simp
  next
    case False
    with "2.prems" pv sd have c: "d = 44 \<and> length ds < length s"
      and "\<exists>xs. parse_elements ds = Some (xs, r1)"
      by (subst (asm) parse_elements.simps, auto simp: cons_result_Some split: if_splits)+
    then obtain xs where "parse_elements ds = Some (xs, r1)" by blast
    with "2.IH"(2) [OF pv refl sd False c] have "length r1 < length ds" by simp
    with ds r show ?thesis by simp
  qed
next
  case (3 s)
  from "3.prems" obtain q qs where sk: "skip_ws s = q # qs" and q: "q = 34"
    by (subst (asm) parse_members.simps) (auto split: list.splits if_splits)
  from "3.prems" sk q obtain k r where ps: "parse_string_body qs = Some (k, r)"
    by (subst (asm) parse_members.simps) (auto split: option.splits)
  from "3.prems" sk q ps obtain col ra where sc: "skip_ws r = col # ra"
    by (subst (asm) parse_members.simps) (auto split: list.splits)
  from "3.prems" sk q ps sc have c: "col = 58 \<and> length ra < length s"
    by (subst (asm) parse_members.simps) (auto split: if_splits)
  from "3.prems" sk q ps sc c obtain v rb where pv: "parse_value ra = Some (v, rb)"
    by (subst (asm) parse_members.simps) (auto split: option.splits)
  have rb: "length rb < length ra"
    using "3.IH"(1) [OF sk q ps refl sc c pv] .
  from "3.prems" sk q ps sc c pv obtain d ds where sd: "skip_ws rb = d # ds"
    by (subst (asm) parse_members.simps) (auto split: list.splits)
  then have ds: "length ds < length rb" by (rule skip_ws_Cons_length)
  show ?case
  proof (cases "d = 125")
    case True
    with "3.prems" sk q ps sc c pv sd have "r2 = ds"
      by (subst (asm) parse_members.simps) simp
    with ds rb c show ?thesis by simp
  next
    case False
    with "3.prems" sk q ps sc c pv sd have c': "d = 44 \<and> length ds < length s"
      and "\<exists>xs. parse_members ds = Some (xs, r2)"
      by (subst (asm) parse_members.simps, auto simp: cons_result_Some split: if_splits)+
    then obtain xs where "parse_members ds = Some (xs, r2)" by blast
    with "3.IH"(2) [OF sk q ps refl sc c pv refl sd False c'] have "length r2 < length ds" by simp
    with ds rb c show ?thesis by simp
  qed
qed

text \<open>The comparisons of lengths in the parser never fail.\<close>

lemma parse_elements_unguarded:
  "parse_elements s =
     (case parse_value s of
        None \<Rightarrow> None
      | Some (v, r) \<Rightarrow>
          (case skip_ws r of
             [] \<Rightarrow> None
           | d # ds \<Rightarrow>
               if d = 93 then Some ([v], ds)
               else if d = 44 then cons_result v (parse_elements ds)
               else None))"
  by (subst parse_elements.simps)
     (auto split: option.splits list.splits dest!: parse_shorter(1) skip_ws_Cons_length)

lemma parse_members_unguarded:
  "parse_members s =
     (case skip_ws s of
        [] \<Rightarrow> None
      | q # qs \<Rightarrow>
          if q = 34 then
            (case parse_string_body qs of
               None \<Rightarrow> None
             | Some (k, r) \<Rightarrow>
                 (case skip_ws r of
                    [] \<Rightarrow> None
                  | col # r1 \<Rightarrow>
                      if col = 58 then
                        (case parse_value r1 of
                           None \<Rightarrow> None
                         | Some (v, r2) \<Rightarrow>
                             (case skip_ws r2 of
                                [] \<Rightarrow> None
                              | d # ds \<Rightarrow>
                                  if d = 125 then Some ([(k, v)], ds)
                                  else if d = 44 then cons_result (k, v) (parse_members ds)
                                  else None))
                      else None))
          else None)"
  by (subst parse_members.simps)
     (auto split: option.splits list.splits
        dest!: parse_shorter(1) skip_ws_Cons_length parse_string_body_shorter)

section \<open>Lines and frames\<close>


lemma split_acc_line: "LF \<notin> set l \<Longrightarrow> split_acc cur l = [cur @ l]"
  by (induction l arbitrary: cur) auto

lemma decode_lines_append: "decode_lines (xs @ ys) = decode_lines xs @ decode_lines ys"
  by (induction xs) (auto split: sum.splits)

lemma decode_lines_concat: "decode_lines ls = concat (map frame_events ls)"
  by (induction ls) (auto simp: frame_events_def split: sum.splits)

lemma decode_lines_filter:
  "(\<And>l. l \<in> set ls \<Longrightarrow> \<not> P l \<Longrightarrow> frame_events l = []) \<Longrightarrow> decode_lines (filter P ls) = decode_lines ls"
proof (induction ls)
  case Nil
  show ?case by simp
next
  case (Cons a ls)
  have ih: "decode_lines (filter P ls) = decode_lines ls"
    using Cons by simp
  show ?case
  proof (cases "P a")
    case True
    with ih show ?thesis by (simp split: sum.splits)
  next
    case False
    then have "frame_events a = []" using Cons.prems by simp
    then have "decode_lines (a # ls) = decode_lines ls"
      by (simp add: frame_events_def split: sum.splits)
    with False ih show ?thesis by simp
  qed
qed

lemma trim_empty_iff: "trim s = [] \<longleftrightarrow> (\<forall>c\<in>set s. is_js_whitespace c)"
proof
  assume "trim s = []"
  then have all: "\<forall>c\<in>set (dropWhile is_js_whitespace s). is_js_whitespace c"
    by (simp add: trim_def)
  have "dropWhile is_js_whitespace s = []"
  proof (rule ccontr)
    assume ne: "dropWhile is_js_whitespace s \<noteq> []"
    then have "\<not> is_js_whitespace (hd (dropWhile is_js_whitespace s))"
      by (rule hd_dropWhile)
    moreover have "hd (dropWhile is_js_whitespace s) \<in> set (dropWhile is_js_whitespace s)"
      using ne by simp
    ultimately show False using all by blast
  qed
  then show "\<forall>c\<in>set s. is_js_whitespace c"
    by (simp add: dropWhile_eq_Nil_conv)
next
  assume "\<forall>c\<in>set s. is_js_whitespace c"
  then have d: "dropWhile is_js_whitespace s = []" by simp
  show "trim s = []"
    unfolding trim_def d by simp
qed

lemma parse_value_blank:
  assumes "\<forall>c\<in>set s. is_js_whitespace c"
  shows "parse_value s = None"
proof (cases "skip_ws s")
  case Nil
  then show ?thesis by (subst parse_value.simps) simp
next
  case (Cons c cs)
  then have "c \<in> set s"
    by (metis list.set_intros(1) set_dropWhileD skip_ws_def)
  with assms have ws: "is_js_whitespace c" by blast
  have "\<not> is_json_ws c"
    using Cons unfolding skip_ws_def by (metis hd_dropWhile list.sel(1) list.distinct(1))
  with ws have "c \<noteq> 123 \<and> c \<noteq> 91 \<and> c \<noteq> 34 \<and> c \<noteq> 116 \<and> c \<noteq> 102 \<and> c \<noteq> 110 \<and> c \<noteq> 45 \<and> \<not> is_digit c"
    unfolding is_js_whitespace_def is_digit_def by auto
  with Cons show ?thesis by (subst parse_value.simps) simp
qed

lemma JSON_parse_blank: "\<forall>c\<in>set s. is_js_whitespace c \<Longrightarrow> JSON_parse s = Inl SyntaxError"
  by (simp add: JSON_parse_def parse_value_blank)

lemma frame_events_blank: "trim l = [] \<Longrightarrow> frame_events l = []"
  by (simp add: frame_events_def decode_frame_def JSON_parse_blank trim_empty_iff)

lemma WI_frames_concat: "WatchIterator_frames b = concat (map frame_events (split_LF b))"
  unfolding WatchIterator_frames_def
  by (subst decode_lines_filter) (auto simp: frame_events_blank decode_lines_concat)


lemma WI_frames_line: "LF \<notin> set l \<Longrightarrow> WatchIterator_frames l = frame_events l"
  by (simp add: WI_frames_concat split_LF_def split_acc_line)






section \<open>The outcome of a watch\<close>

lemma WatchIterator_watch_ok:
  "WatchIterator_receives node cfg path options r \<Longrightarrow> httpStatusCode r = 200 \<Longrightarrow>
   WatchIterator_watch node cfg path options = (WatchIterator_frames (body_text r), None)"
  by (auto simp: WatchIterator_receives_def WatchIterator_watch_def split: sum.splits)

lemma WatchIterator_watch_fail:
  "WatchIterator_receives node cfg path options r \<Longrightarrow> httpStatusCode r \<noteq> 200 \<Longrightarrow>
   WatchIterator_watch node cfg path options =
     ([], Some (WatchError (or_else (STATUS_CODES node (httpStatusCode r)) (js ''Unknown Error''))
                  (Some (httpStatusCode r))))"
  by (auto simp: WatchIterator_receives_def WatchIterator_watch_def split: sum.splits)

lemma WatchApi_watch_ok:
  "WatchApi_receives node num fetch this path qp r \<Longrightarrow> status r = 200 \<Longrightarrow>
   WatchApi_watch node num fetch this path qp = (WatchApi_frames (body r), None)"
  by (auto simp: WatchApi_receives_def WatchApi_watch_def split: sum.splits)

lemma WatchApi_watch_fail:
  "WatchApi_receives node num fetch this path qp r \<Longrightarrow> status r \<noteq> 200 \<Longrightarrow>
   WatchApi_watch node num fetch this path qp =
     ([], Some (ApiException (status r)
                  (if statusText r \<noteq> [] then statusText r
                   else or_else (STATUS_CODES node (status r)) (js ''Internal Server Error''))
                  (body r)))"
  by (auto simp: WatchApi_receives_def WatchApi_watch_def split: sum.splits)

lemma decode_frame_value:
  "JSON_parse l = Inr v \<Longrightarrow> v \<noteq> JNull \<Longrightarrow>
   decode_frame l = Inr \<lparr>type = type_field v, object = object_field v\<rparr>"
  by (cases v) (simp_all add: decode_frame_def get_property_def type_field_def object_field_def)


lemma decode_frame_invalid: "JSON_parse l = Inl e \<Longrightarrow> decode_frame l = Inl e"
  by (simp add: decode_frame_def)

lemma kinds_decode_lines:
  "\<forall>l\<in>set ls. JSON_parse l \<noteq> Inr JNull \<Longrightarrow> map type (decode_lines ls) = spec_event_kinds ls"
proof (induction ls)
  case Nil
  show ?case by simp
next
  case (Cons l ls)
  then have ih: "map type (decode_lines ls) = spec_event_kinds ls" by simp
  show ?case
  proof (cases "JSON_parse l")
    case (Inl e)
    with ih show ?thesis by (simp add: decode_frame_invalid)
  next
    case (Inr v)
    with Cons.prems have nn: "v \<noteq> JNull" by auto
    have "trim l \<noteq> []"
    proof
      assume "trim l = []"
      then have "JSON_parse l = Inl SyntaxError"
        by (simp add: JSON_parse_blank trim_empty_iff)
      with Inr show False by simp
    qed
    with Inr nn ih show ?thesis by (simp add: decode_frame_value)
  qed
qed

lemma decode_lines_nonblank:
  "decode_lines (filter (\<lambda>line. trim line \<noteq> []) ls) = decode_lines ls"
  by (rule decode_lines_filter) (simp add: frame_events_blank)

lemma frame_events_Nil: "frame_events [] = []"
  by (simp add: frame_events_blank trim_def)




lemma frame_events_skipped:
  "trim l = [] \<or> JSON_parse l = Inl SyntaxError \<Longrightarrow> frame_events l = []"
proof (erule disjE)
  show "trim l = [] \<Longrightarrow> frame_events l = []" by (rule frame_events_blank)
  show "JSON_parse l = Inl SyntaxError \<Longrightarrow> frame_events l = []"
    by (simp add: frame_events_def decode_frame_def)
qed








section \<open>A carriage return before the line feed\<close>

text \<open>
  A carriage return at the end of a text is white space to \<^verbatim>\<open>JSON.parse\<close>: every part of
  the parser reads the same value from the text with it and without it.
\<close>

lemma skip_ws_CR: "skip_ws (s @ [CR]) = (if skip_ws s = [] then [] else skip_ws s @ [CR])"
  by (induction s) (auto simp: skip_ws_def is_json_ws_def)

lemma hex4_CR: "hex4 a b c CR = None"
  by (simp add: hex4_def hex_val_def split: option.splits)

lemma simple_escape_CR: "simple_escape CR = None"
  by (simp add: simple_escape_def)

lemma cons_result_CR:
  "cons_result x (map_option (apsnd (\<lambda>r. r @ [CR])) p)
   = map_option (apsnd (\<lambda>r. r @ [CR])) (cons_result x p)"
  by (auto simp: cons_result_def split: option.splits)

lemma parse_string_body_CR:
  "parse_string_body (s @ [CR]) = map_option (apsnd (\<lambda>r. r @ [CR])) (parse_string_body s)"
proof (induction s rule: parse_string_body.induct)
  case 1
  show ?case by simp
next
  case (2 c cs)
  show ?case
  proof (cases "c = 34 \<or> c \<noteq> 92")
    case True
    with 2 show ?thesis by (auto simp: cons_result_CR)
  next
    case False
    then have c: "c = 92" "c \<noteq> 34" by auto
    show ?thesis
    proof (cases cs)
      case Nil
      with c show ?thesis by (simp add: simple_escape_CR)
    next
      case (Cons e es)
      show ?thesis
      proof (cases "e = 117")
        case False
        with 2 c Cons show ?thesis
          by (cases "simple_escape e") (simp_all add: cons_result_CR)
      next
        case True
        consider "es = []" | h1 where "es = [h1]" | h1 h2 where "es = [h1, h2]"
          | h1 h2 h3 where "es = [h1, h2, h3]"
          | (long) h1 h2 h3 h4 rest where "es = h1 # h2 # h3 # h4 # rest"
          by (metis list.exhaust)
        then show ?thesis
        proof cases
          case long
          with 2 c Cons True show ?thesis
            by (cases "hex4 h1 h2 h3 h4") (simp_all add: cons_result_CR)
        qed (use c Cons True in \<open>simp_all add: hex4_CR\<close>)
      qed
    qed
  qed
qed

lemma parse_digits1_CR:
  "parse_digits1 (s @ [CR]) = map_option (apsnd (\<lambda>r. r @ [CR])) (parse_digits1 s)"
proof -
  have "takeWhile is_digit (s @ [CR]) = takeWhile is_digit s"
    by (induction s) (simp_all add: is_digit_def)
  moreover have "dropWhile is_digit (s @ [CR]) = dropWhile is_digit s @ [CR]"
    by (induction s) (simp_all add: is_digit_def)
  ultimately show ?thesis by (simp add: parse_digits1_def)
qed

lemma parse_digits1_only_CR: "parse_digits1 [CR] = None"
  by (simp add: parse_digits1_def is_digit_def)

lemma parse_int_part_CR:
  "parse_int_part (s @ [CR]) = map_option (apsnd (\<lambda>r. r @ [CR])) (parse_int_part s)"
  using parse_digits1_CR [of s]
  by (cases s) (simp_all add: parse_int_part_def parse_digits1_only_CR)

lemma parse_frac_CR:
  "parse_frac (s @ [CR]) = map_option (apsnd (\<lambda>r. r @ [CR])) (parse_frac s)"
proof (cases s)
  case Nil
  then show ?thesis by (simp add: parse_frac_def)
next
  case (Cons c cs)
  then show ?thesis
    by (cases "parse_digits1 cs") (auto simp: parse_frac_def parse_digits1_CR)
qed

lemma parse_exp_CR:
  "parse_exp (s @ [CR]) = map_option (apsnd (\<lambda>r. r @ [CR])) (parse_exp s)"
proof (cases s)
  case Nil
  then show ?thesis by (simp add: parse_exp_def)
next
  case s: (Cons c cs)
  show ?thesis
  proof (cases cs)
    case Nil
    with s show ?thesis by (simp add: parse_exp_def parse_digits1_only_CR)
  next
    case (Cons g gs)
    have "parse_digits1 (g # gs @ [CR]) = map_option (apsnd (\<lambda>r. r @ [CR])) (parse_digits1 (g # gs))"
      using parse_digits1_CR [of "g # gs"] by simp
    with s Cons show ?thesis
      by (cases "parse_digits1 gs"; cases "parse_digits1 (g # gs)")
         (auto simp: parse_exp_def parse_digits1_CR)
  qed
qed

lemma parse_number_CR:
  "parse_number (s @ [CR]) = map_option (apsnd (\<lambda>r. r @ [CR])) (parse_number s)"
proof -
  have n: "parse_number t =
      (case parse_int_part t of
         None \<Rightarrow> None
       | Some (ip, s2) \<Rightarrow>
           (case parse_frac s2 of
              None \<Rightarrow> None
            | Some (fp, s3) \<Rightarrow>
                (case parse_exp s3 of None \<Rightarrow> None | Some (ep, s4) \<Rightarrow> Some (ip @ fp @ ep, s4))))"
    if "t = [] \<or> hd t \<noteq> 45" for t
    using that by (cases t) (auto simp: parse_number_def split: option.splits)
  have m: "parse_number (45 # t) =
      (case parse_int_part t of
         None \<Rightarrow> None
       | Some (ip, s2) \<Rightarrow>
           (case parse_frac s2 of
              None \<Rightarrow> None
            | Some (fp, s3) \<Rightarrow>
                (case parse_exp s3 of None \<Rightarrow> None | Some (ep, s4) \<Rightarrow> Some (45 # ip @ fp @ ep, s4))))"
    for t
    by (simp add: parse_number_def split: option.splits)
  show ?thesis
  proof (cases "s = [] \<or> hd s \<noteq> 45")
    case True
    then have "s @ [CR] = [] \<or> hd (s @ [CR]) \<noteq> 45" by (cases s) auto
    then show ?thesis
      by (simp only: n [OF True] n [OF \<open>s @ [CR] = [] \<or> hd (s @ [CR]) \<noteq> 45\<close>] parse_int_part_CR)
         (auto simp: parse_frac_CR parse_exp_CR split: option.splits)
  next
    case False
    then obtain t where s: "s = 45 # t" by (cases s) auto
    show ?thesis
      unfolding s append_Cons m parse_int_part_CR
      by (auto simp: parse_frac_CR parse_exp_CR split: option.splits)
  qed
qed

lemma parse_literal_CR:
  assumes "CR \<notin> set word"
  shows "parse_literal word v (s @ [CR]) = map_option (apsnd (\<lambda>r. r @ [CR])) (parse_literal word v s)"
proof (cases "length word \<le> length s")
  case True
  then show ?thesis by (simp add: parse_literal_def)
next
  case False
  then have "take (length word) (s @ [CR]) = s @ [CR]" by simp
  moreover have "s @ [CR] \<noteq> word" using assms by auto
  moreover have "take (length word) s \<noteq> word"
  proof
    assume "take (length word) s = word"
    then have "length (take (length word) s) = length word" by simp
    with False show False by simp
  qed
  ultimately show ?thesis by (simp add: parse_literal_def)
qed

lemma parse_literal_CR_Cons:
  "CR \<notin> set word \<Longrightarrow>
   parse_literal word v (c # cs @ [CR])
   = map_option (apsnd (\<lambda>r. r @ [CR])) (parse_literal word v (c # cs))"
  using parse_literal_CR [of word v "c # cs"] by simp

lemma parse_number_CR_Cons:
  "parse_number (c # cs @ [CR]) = map_option (apsnd (\<lambda>r. r @ [CR])) (parse_number (c # cs))"
  using parse_number_CR [of "c # cs"] by simp

lemma parse_CR:
  "parse_value (s @ [CR]) = map_option (apsnd (\<lambda>r. r @ [CR])) (parse_value s)"
  "parse_elements (s1 @ [CR]) = map_option (apsnd (\<lambda>r. r @ [CR])) (parse_elements s1)"
  "parse_members (s2 @ [CR]) = map_option (apsnd (\<lambda>r. r @ [CR])) (parse_members s2)"
proof (induction s and s1 and s2 rule: parse_value_parse_elements_parse_members.induct)
  case (1 s)
  note v = parse_value.simps [of s] parse_value.simps [of "s @ [CR]"]
  show ?case
  proof (cases "skip_ws s")
    case Nil
    then show ?thesis by (simp add: v skip_ws_CR)
  next
    case sk: (Cons c cs)
    then have sk': "skip_ws (s @ [CR]) = c # cs @ [CR]" by (simp add: skip_ws_CR)
    consider (obj) "c = 123" | (arr) "c \<noteq> 123" "c = 91" | (other) "c \<noteq> 123" "c \<noteq> 91"
      by blast
    then show ?thesis
    proof cases
      case obj
      show ?thesis
      proof (cases "skip_ws cs")
        case Nil
        with sk sk' obj show ?thesis by (simp add: v skip_ws_CR)
      next
        case sd: (Cons d ds)
        show ?thesis
        proof (cases "d = 125")
          case True
          with sk sk' obj sd show ?thesis by (simp add: v skip_ws_CR)
        next
          case False
          from "1.IH"(1) [OF sk obj sd False]
          have "parse_members (d # ds @ [CR])
              = map_option (apsnd (\<lambda>r. r @ [CR])) (parse_members (d # ds))"
            by simp
          with sk sk' obj sd False show ?thesis
            by (cases "parse_members (d # ds)") (auto simp: v skip_ws_CR)
        qed
      qed
    next
      case arr
      show ?thesis
      proof (cases "skip_ws cs")
        case Nil
        with sk sk' arr show ?thesis by (simp add: v skip_ws_CR)
      next
        case sd: (Cons d ds)
        show ?thesis
        proof (cases "d = 93")
          case True
          with sk sk' arr sd show ?thesis by (simp add: v skip_ws_CR)
        next
          case False
          from "1.IH"(2) [OF sk arr sd False]
          have "parse_elements (d # ds @ [CR])
              = map_option (apsnd (\<lambda>r. r @ [CR])) (parse_elements (d # ds))"
            by simp
          with sk sk' arr sd False show ?thesis
            by (cases "parse_elements (d # ds)") (auto simp: v skip_ws_CR)
        qed
      qed
    next
      case other
      have w: "CR \<notin> set (js ''true'')" "CR \<notin> set (js ''false'')" "CR \<notin> set (js ''null'')"
        by (simp_all add: js_def)
      note l = parse_literal_CR_Cons parse_number_CR_Cons
      from sk sk' other show ?thesis
        by (cases "parse_string_body cs"; cases "parse_number (c # cs)")
           (auto simp: v parse_string_body_CR l w)
    qed
  qed
next
  case (2 s)
  note e = parse_elements_unguarded [of s] parse_elements_unguarded [of "s @ [CR]"]
  show ?case
  proof (cases "parse_value s")
    case None
    with "2.IH"(1) show ?thesis by (simp add: e)
  next
    case (Some p)
    obtain v r where "p = (v, r)" by (cases p)
    with Some have pv: "parse_value s = Some (v, r)" by simp
    with "2.IH"(1) have pv': "parse_value (s @ [CR]) = Some (v, r @ [CR])" by simp
    have r: "length r < length s" using pv by (rule parse_shorter(1))
    show ?thesis
    proof (cases "skip_ws r")
      case Nil
      with pv pv' show ?thesis by (simp add: e skip_ws_CR)
    next
      case sd: (Cons d ds)
      then have ds: "length ds < length r" by (rule skip_ws_Cons_length)
      show ?thesis
      proof (cases "d = 44")
        case True
        then have n: "d \<noteq> 93" by simp
        from True ds r have g: "d = 44 \<and> length ds < length s" by simp
        from "2.IH"(2) [OF pv refl sd n g] pv pv' sd True show ?thesis
          by (simp add: e skip_ws_CR cons_result_CR)
      next
        case False
        with pv pv' sd show ?thesis by (simp add: e skip_ws_CR)
      qed
    qed
  qed
next
  case (3 s)
  note m = parse_members_unguarded [of s] parse_members_unguarded [of "s @ [CR]"]
  show ?case
  proof (cases "skip_ws s")
    case Nil
    then show ?thesis by (simp add: m skip_ws_CR)
  next
    case sk: (Cons q qs)
    then have sk': "skip_ws (s @ [CR]) = q # qs @ [CR]" by (simp add: skip_ws_CR)
    have qs: "length qs < length s" using sk by (rule skip_ws_Cons_length)
    show ?thesis
    proof (cases "q = 34")
      case False
      with sk sk' show ?thesis by (simp add: m)
    next
      case q: True
      show ?thesis
      proof (cases "parse_string_body qs")
        case None
        with sk sk' q show ?thesis by (simp add: m parse_string_body_CR)
      next
        case (Some p)
        obtain k r where "p = (k, r)" by (cases p)
        with Some have ps: "parse_string_body qs = Some (k, r)" by simp
        then have ps': "parse_string_body (qs @ [CR]) = Some (k, r @ [CR])"
          by (simp add: parse_string_body_CR)
        have r: "length r < length qs" using ps by (rule parse_string_body_shorter)
        show ?thesis
        proof (cases "skip_ws r")
          case Nil
          with sk sk' q ps ps' show ?thesis by (simp add: m skip_ws_CR)
        next
          case sc: (Cons col ra)
          then have ra: "length ra < length r" by (rule skip_ws_Cons_length)
          show ?thesis
          proof (cases "col = 58")
            case False
            with sk sk' q ps ps' sc show ?thesis by (simp add: m skip_ws_CR)
          next
            case True
            with ra r qs have c: "col = 58 \<and> length ra < length s" by simp
            note ihv = "3.IH"(1) [OF sk q ps refl sc c]
            show ?thesis
            proof (cases "parse_value ra")
              case None
              with ihv sk sk' q ps ps' sc True show ?thesis by (simp add: m skip_ws_CR)
            next
              case (Some p')
              obtain v rb where "p' = (v, rb)" by (cases p')
              with Some have pv: "parse_value ra = Some (v, rb)" by simp
              with ihv have pv': "parse_value (ra @ [CR]) = Some (v, rb @ [CR])" by simp
              have rb: "length rb < length ra" using pv by (rule parse_shorter(1))
              show ?thesis
              proof (cases "skip_ws rb")
                case Nil
                with sk sk' q ps ps' sc True pv pv' show ?thesis by (simp add: m skip_ws_CR)
              next
                case sd: (Cons d ds)
                then have ds: "length ds < length rb" by (rule skip_ws_Cons_length)
                show ?thesis
                proof (cases "d = 44")
                  case False
                  with sk sk' q ps ps' sc True pv pv' sd show ?thesis
                    by (simp add: m skip_ws_CR)
                next
                  case d: True
                  then have n: "d \<noteq> 125" by simp
                  from d ds rb c have c': "d = 44 \<and> length ds < length s" by simp
                  from "3.IH"(2) [OF sk q ps refl sc c pv refl sd n c']
                    sk sk' q ps ps' sc True pv pv' sd d
                  show ?thesis by (simp add: m skip_ws_CR cons_result_CR)
                qed
              qed
            qed
          qed
        qed
      qed
    qed
  qed
qed

lemma JSON_parse_CR: "JSON_parse (l @ [CR]) = JSON_parse l"
proof (cases "parse_value l")
  case None
  then show ?thesis by (simp add: JSON_parse_def parse_CR(1))
next
  case (Some p)
  then show ?thesis
    by (cases p) (simp add: JSON_parse_def parse_CR(1) skip_ws_CR)
qed

lemma frame_events_CR: "frame_events (l @ [CR]) = frame_events l"
  by (simp add: frame_events_def decode_frame_def JSON_parse_CR)

section \<open>The lines of a body\<close>

lemma body_lines_Nil: "body_lines [] = []"
  by (simp add: body_lines.simps)

lemma body_lines_whole:
  assumes "\<forall>c\<in>set l. \<not> is_line_ending c" and "l \<noteq> []"
  shows "body_lines l = [l]"
proof -
  have t: "takeWhile (\<lambda>c. \<not> is_line_ending c) l = l"
    and d: "dropWhile (\<lambda>c. \<not> is_line_ending c) l = []"
    using assms(1) by simp_all
  show ?thesis
    by (subst body_lines.simps) (simp only: t d assms(2) if_False list.case)
qed

lemma body_lines_cut:
  "\<forall>c\<in>set l. \<not> is_line_ending c \<Longrightarrow> is_line_ending t \<Longrightarrow>
   body_lines (l @ t # rest)
   = l # (case rest of
            [] \<Rightarrow> []
          | u # rest' \<Rightarrow> if t = CR \<and> u = LF then body_lines rest' else body_lines rest)"
  by (subst body_lines.simps) simp

lemma body_lines_LF_line:
  "\<forall>c\<in>set l. \<not> is_line_ending c \<Longrightarrow> body_lines (l @ LF # rest) = l # body_lines rest"
  by (cases rest) (simp_all add: body_lines_cut is_line_ending_def body_lines_Nil)

lemma body_lines_CRLF_line:
  "\<forall>c\<in>set l. \<not> is_line_ending c \<Longrightarrow> body_lines (l @ CR # LF # rest) = l # body_lines rest"
  by (simp add: body_lines_cut is_line_ending_def)

lemma body_lines_CR_line:
  "\<forall>c\<in>set l. \<not> is_line_ending c \<Longrightarrow> \<forall>c\<in>set l'. \<not> is_line_ending c \<Longrightarrow> l' \<noteq> [] \<Longrightarrow>
   body_lines (l @ CR # l') = [l, l']"
proof -
  assume l: "\<forall>c\<in>set l. \<not> is_line_ending c" and l': "\<forall>c\<in>set l'. \<not> is_line_ending c" "l' \<noteq> []"
  then obtain a as where a: "l' = a # as" by (cases l') auto
  with l'(1) have "a \<noteq> LF" by (auto simp: is_line_ending_def)
  moreover have "is_line_ending CR" by (simp add: is_line_ending_def)
  ultimately have "body_lines (l @ CR # l') = l # body_lines l'"
    using l a by (simp add: body_lines_cut)
  with l' show ?thesis by (simp add: body_lines_whole)
qed

text \<open>readline gives the lines of the text.\<close>

lemma readline_acc_body_lines:
  "\<forall>c\<in>set cur. \<not> is_line_ending c \<Longrightarrow> readline_acc cur s = body_lines (cur @ s)"
proof (induction cur s rule: readline_acc.induct)
  case (1 cur)
  then show ?case by (cases "cur = []") (simp_all add: body_lines_Nil body_lines_whole)
next
  case (2 cur c)
  show ?case
  proof (cases "is_line_ending c")
    case True
    with "2.prems" show ?thesis by (simp add: body_lines_cut)
  next
    case False
    with 2 show ?thesis by simp
  qed
next
  case (3 cur c d cs)
  show ?case
  proof (cases "is_line_ending c")
    case True
    with 3 show ?thesis by (simp add: body_lines_cut)
  next
    case False
    then have "\<not> (c = CR \<and> d = LF)" by (simp add: is_line_ending_def)
    with "3.IH"(3) "3.prems" False show ?thesis by auto
  qed
qed

lemma readline_lines_body_lines: "readline_lines s = body_lines s"
  by (simp add: readline_lines_def readline_acc_body_lines)

text \<open>
  \<^verbatim>\<open>split('\n')\<close> leaves the carriage return of a CR LF at the end of its piece, where
  \<^verbatim>\<open>JSON.parse\<close> passes over it: when every carriage return is followed by a line
  feed, the pieces decode to the same events as the lines.
\<close>

lemma frames_no_lone_CR:
  "no_lone_CR s \<Longrightarrow>
   concat (map frame_events (split_acc cur s)) = concat (map frame_events (readline_acc cur s))"
proof (induction cur s rule: readline_acc.induct)
  case (1 cur)
  show ?case by (simp add: frame_events_Nil)
next
  case (2 cur c)
  then show ?case by (simp add: frame_events_Nil is_line_ending_def)
next
  case (3 cur c d cs)
  show ?case
  proof (cases "c = CR")
    case True
    with "3.prems" have d: "d = LF" and n: "no_lone_CR cs" by simp_all
    from "3.IH"(1) [OF _ n] True d show ?thesis by (simp add: frame_events_CR)
  next
    case False
    with "3.prems" have n: "no_lone_CR (d # cs)" by simp
    show ?thesis
    proof (cases "c = LF")
      case True
      with "3.IH"(2) [OF _ _ n] show ?thesis by (simp add: is_line_ending_def)
    next
      case lf: False
      with False "3.IH"(3) [OF _ _ n] show ?thesis by (simp add: is_line_ending_def)
    qed
  qed
qed

lemma WI_frames_body_lines:
  "no_lone_CR b \<Longrightarrow> WatchIterator_frames b = decode_lines (body_lines b)"
  by (simp add: WI_frames_concat split_LF_def frames_no_lone_CR decode_lines_concat
        readline_lines_body_lines [unfolded readline_lines_def])

lemma WA_frames_body_lines: "WatchApi_frames b = decode_lines (body_lines b)"
  by (simp add: WatchApi_frames_def readline_lines_body_lines)

section \<open>Query parameters\<close>

lemma params_named_set_pair_same: "params_named name (set_pair name v ps) = [v]"
  by (induction ps) (auto simp: params_named_def filter_empty_conv)

lemma params_named_set_pair_other:
  "k \<noteq> name \<Longrightarrow> params_named k (set_pair name v ps) = params_named k ps"
proof (induction ps)
  case Nil
  then show ?case by (simp add: params_named_def)
next
  case (Cons p ps)
  have "filter (\<lambda>q. fst q = k) (filter (\<lambda>q. fst q \<noteq> name) ps) = filter (\<lambda>q. fst q = k) ps"
    using Cons.prems by (induction ps) auto
  with Cons show ?case by (auto simp: params_named_def)
qed

lemma names_set_pair: "fst ` set (set_pair name v ps) = insert name (fst ` set ps)"
  by (induction ps) (auto simp: image_iff)

lemma set_pair_not_Nil: "set_pair name v ps \<noteq> []"
  by (cases ps) auto

lemma toWellFormed_inverse: "toWellFormed k = n \<Longrightarrow> 65533 \<notin> set n \<Longrightarrow> k = n"
  by (induction k arbitrary: n rule: toWellFormed.induct) (auto split: if_splits)

lemma toWellFormed_names:
  "toWellFormed (js ''watch'') = js ''watch''"
  "toWellFormed (js ''resourceVersion'') = js ''resourceVersion''"
  "toWellFormed (js ''labelSelector'') = js ''labelSelector''"
  "toWellFormed (js ''fieldSelector'') = js ''fieldSelector''"
  "toWellFormed (js ''allowWatchBookmarks'') = js ''allowWatchBookmarks''"
  "toWellFormed (js ''true'') = js ''true''"
  "toWellFormed (js ''false'') = js ''false''"
  by (simp_all add: js_def is_high_surrogate_def is_low_surrogate_def)

lemma names_no_replacement:
  "65533 \<notin> set (js ''watch'')" "65533 \<notin> set (js ''resourceVersion'')"
  "65533 \<notin> set (js ''labelSelector'')" "65533 \<notin> set (js ''fieldSelector'')"
  "65533 \<notin> set (js ''allowWatchBookmarks'')"
  by (simp_all add: js_def)

lemma params_named_set_same:
  "params_named (toWellFormed name) (URLSearchParams_set name v ps) = [toWellFormed v]"
  by (simp add: URLSearchParams_set_def params_named_set_pair_same)

lemma params_named_set_other:
  "k \<noteq> toWellFormed name \<Longrightarrow> params_named k (URLSearchParams_set name v ps) = params_named k ps"
  by (simp add: URLSearchParams_set_def params_named_set_pair_other)

lemma names_set:
  "fst ` set (URLSearchParams_set name v ps) = insert (toWellFormed name) (fst ` set ps)"
  by (simp add: URLSearchParams_set_def names_set_pair)

lemma set_queryParams_defined:
  "set_queryParams num (filter (\<lambda>e. snd e \<noteq> None) qp) ps = set_queryParams num qp ps"
  by (induction qp arbitrary: ps) (auto split: option.splits)

lemma set_not_Nil: "URLSearchParams_set name v ps \<noteq> []"
  unfolding URLSearchParams_set_def by (rule set_pair_not_Nil)

lemma set_queryParams_not_Nil: "ps \<noteq> [] \<Longrightarrow> set_queryParams num qp ps \<noteq> []"
proof (induction qp arbitrary: ps)
  case Nil
  then show ?case by simp
next
  case (Cons e qp)
  obtain k val where e: "e = (k, val)" by (cases e)
  show ?case
  proof (cases val)
    case None
    with Cons.IH [OF Cons.prems] e show ?thesis by simp
  next
    case (Some w)
    with Cons.IH [OF set_not_Nil [of k "toString num w" ps]] e show ?thesis by simp
  qed
qed

lemma set_queryParams_other:
  "\<forall>k v. (k, Some v) \<in> set qp \<longrightarrow> toWellFormed k \<noteq> key \<Longrightarrow>
   params_named key (set_queryParams num qp ps) = params_named key ps"
proof (induction qp arbitrary: ps)
  case Nil
  show ?case by simp
next
  case (Cons e qp)
  obtain k val where e: "e = (k, val)" by (cases e)
  show ?case
  proof (cases val)
    case None
    with Cons e show ?thesis by simp
  next
    case (Some v)
    with Cons.prems e have "key \<noteq> toWellFormed k" by auto
    with Cons e Some show ?thesis by (simp add: params_named_set_other)
  qed
qed

lemma set_queryParams_other_name:
  assumes "65533 \<notin> set key" and "\<forall>v. (key, Some v) \<notin> set qp"
  shows "params_named key (set_queryParams num qp ps) = params_named key ps"
proof (rule set_queryParams_other, intro allI impI)
  fix k v
  assume m: "(k, Some v) \<in> set qp"
  show "toWellFormed k \<noteq> key"
  proof
    assume "toWellFormed k = key"
    from this assms(1) have "k = key" by (rule toWellFormed_inverse)
    with m assms(2) show False by simp
  qed
qed

lemma set_queryParams_names:
  "fst ` set (set_queryParams num qp ps)
   = fst ` set ps \<union> {toWellFormed k | k. \<exists>v. (k, Some v) \<in> set qp}"
proof (induction qp arbitrary: ps)
  case Nil
  show ?case by simp
next
  case (Cons e qp)
  obtain k val where e: "e = (k, val)" by (cases e)
  show ?case
  proof (cases val)
    case None
    have "{toWellFormed k' | k'. \<exists>v. (k', Some v) \<in> set (e # qp)}
          = {toWellFormed k' | k'. \<exists>v. (k', Some v) \<in> set qp}"
      unfolding e None by auto
    moreover have "set_queryParams num (e # qp) ps = set_queryParams num qp ps"
      unfolding e None by simp
    ultimately show ?thesis using Cons.IH [of ps] by simp
  next
    case (Some w)
    have "{toWellFormed k' | k'. \<exists>v. (k', Some v) \<in> set (e # qp)}
          = insert (toWellFormed k) {toWellFormed k' | k'. \<exists>v. (k', Some v) \<in> set qp}"
      unfolding e Some by auto
    moreover have "set_queryParams num (e # qp) ps
          = set_queryParams num qp (URLSearchParams_set k (toString num w) ps)"
      unfolding e Some by simp
    ultimately show ?thesis
      using Cons.IH [of "URLSearchParams_set k (toString num w) ps"] by (simp add: names_set)
  qed
qed

lemma set_queryParams_forwarded:
  "distinct (map (toWellFormed \<circ> fst) qp) \<Longrightarrow> (key, Some v) \<in> set qp \<Longrightarrow>
   params_named (toWellFormed key) (set_queryParams num qp ps) = [toWellFormed (toString num v)]"
proof (induction qp arbitrary: ps)
  case Nil
  then show ?case by simp
next
  case (Cons e qp)
  obtain k val where e: "e = (k, val)" by (cases e)
  show ?case
  proof (cases "e = (key, Some v)")
    case True
    with Cons.prems e have "\<forall>k' w. (k', Some w) \<in> set qp \<longrightarrow> toWellFormed k' \<noteq> toWellFormed key"
      by (force simp: image_iff)
    with True show ?thesis
      by (simp add: set_queryParams_other params_named_set_same)
  next
    case False
    with Cons.prems have "(key, Some v) \<in> set qp" by simp
    with Cons e show ?thesis by (cases val) simp_all
  qed
qed

lemma WatchApi_request_params:
  assumes "WatchApi_request node num this path qp = Inr req"
  shows "\<exists>ps0. URL_new node (watchURL req) = Inr ps0 \<and>
          watchURL_searchParams req
            = set_queryParams num qp (URLSearchParams_set (js ''watch'') (js ''true'') ps0)"
  using assms
  by (auto simp: WatchApi_request_def split: option.splits AuthMethod.splits sum.splits)

lemma WatchApi_request_timeout:
  "WatchApi_request node num this path qp = Inr req \<Longrightarrow> requestInit_signal req = requestTimeoutMs this"
  by (auto simp: WatchApi_request_def split: option.splits AuthMethod.splits sum.splits)

lemma WatchIterator_request_params:
  assumes "WatchIterator_request node cfg path options = Inr ctx"
  shows "\<exists>ps0. URL_new node (url ctx) = Inr ps0 \<and>
          ctx = setSignal (case timeoutMs options of None \<Rightarrow> 30000 | Some ms \<Rightarrow> ms)
                  (WatchIterator_query options
                     \<lparr>url = baseServer cfg @ path, searchParams = ps0, httpMethod = GET, signal = None\<rparr>)"
proof -
  obtain ps0 where u: "URL_new node (baseServer cfg @ path) = Inr ps0"
    using assms
    by (cases "URL_new node (baseServer cfg @ path)")
       (simp_all add: WatchIterator_request_def makeRequestContext_def)
  let ?ctx = "WatchIterator_query options
      \<lparr>url = baseServer cfg @ path, searchParams = ps0, httpMethod = GET, signal = None\<rparr>"
  have c: "ctx = setSignal (case timeoutMs options of None \<Rightarrow> 30000 | Some ms \<Rightarrow> ms) ?ctx"
    using assms u
    by (simp add: WatchIterator_request_def makeRequestContext_def Let_def
          split: option.splits)
  have "url ?ctx = baseServer cfg @ path"
    by (simp add: WatchIterator_query_def Let_def setQueryParam_def split: option.splits)
  with c u show ?thesis by (simp add: setSignal_def)
qed

lemma option_names_distinct:
  "js ''watch'' \<noteq> js ''resourceVersion''" "js ''watch'' \<noteq> js ''labelSelector''"
  "js ''watch'' \<noteq> js ''fieldSelector''" "js ''watch'' \<noteq> js ''allowWatchBookmarks''"
  "js ''resourceVersion'' \<noteq> js ''labelSelector''" "js ''resourceVersion'' \<noteq> js ''fieldSelector''"
  "js ''resourceVersion'' \<noteq> js ''allowWatchBookmarks''"
  "js ''labelSelector'' \<noteq> js ''fieldSelector''" "js ''labelSelector'' \<noteq> js ''allowWatchBookmarks''"
  "js ''fieldSelector'' \<noteq> js ''allowWatchBookmarks''"
  by (simp_all add: js_def)

lemma params_named_setQueryParam:
  "params_named k (searchParams (setQueryParam n v ctx))
   = (if k = toWellFormed n then [toWellFormed v] else params_named k (searchParams ctx))"
  by (simp add: setQueryParam_def params_named_set_same params_named_set_other)

lemma WatchIterator_query_named:
  fixes ctx0 options
  defines "ps \<equiv> searchParams (WatchIterator_query options ctx0)"
  shows "params_named (js ''watch'') ps = [js ''true'']"
    and "params_named (js ''resourceVersion'') ps
         = (case resourceVersion options of None \<Rightarrow> params_named (js ''resourceVersion'') (searchParams ctx0) | Some v \<Rightarrow> [toWellFormed v])"
    and "params_named (js ''labelSelector'') ps
         = (case labelSelector options of None \<Rightarrow> params_named (js ''labelSelector'') (searchParams ctx0) | Some v \<Rightarrow> [toWellFormed v])"
    and "params_named (js ''fieldSelector'') ps
         = (case fieldSelector options of None \<Rightarrow> params_named (js ''fieldSelector'') (searchParams ctx0) | Some v \<Rightarrow> [toWellFormed v])"
    and "params_named (js ''allowWatchBookmarks'') ps
         = (if allowWatchBookmarks options = Some False
            then params_named (js ''allowWatchBookmarks'') (searchParams ctx0)
            else [js ''true''])"
  unfolding ps_def WatchIterator_query_def Let_def
  by (simp_all add: params_named_setQueryParam toWellFormed_names option_names_distinct
        option_names_distinct [symmetric] split: option.splits)

lemma distinct_keys_unique:
  "distinct (map fst xs) \<Longrightarrow> (k, a) \<in> set xs \<Longrightarrow> (k, b) \<in> set xs \<Longrightarrow> a = b"
  by (metis map_of_eq_Some_iff option.inject)

lemma WatchIterator_request_named:
  assumes "WatchIterator_request node cfg path options = Inr ctx"
    and "URL_new node (url ctx) = Inr ps0"
  shows "params_named (js ''watch'') (searchParams ctx) = [js ''true'']"
    and "params_named (js ''resourceVersion'') (searchParams ctx)
         = (case resourceVersion options of None \<Rightarrow> params_named (js ''resourceVersion'') ps0 | Some v \<Rightarrow> [toWellFormed v])"
    and "params_named (js ''labelSelector'') (searchParams ctx)
         = (case labelSelector options of None \<Rightarrow> params_named (js ''labelSelector'') ps0 | Some v \<Rightarrow> [toWellFormed v])"
    and "params_named (js ''fieldSelector'') (searchParams ctx)
         = (case fieldSelector options of None \<Rightarrow> params_named (js ''fieldSelector'') ps0 | Some v \<Rightarrow> [toWellFormed v])"
    and "params_named (js ''allowWatchBookmarks'') (searchParams ctx)
         = (if allowWatchBookmarks options = Some False
            then params_named (js ''allowWatchBookmarks'') ps0
            else [js ''true''])"
    and "signal ctx = Some (case timeoutMs options of None \<Rightarrow> 30000 | Some ms \<Rightarrow> ms)"
proof -
  from WatchIterator_request_params [OF assms(1)] assms(2)
  have c: "ctx = setSignal (case timeoutMs options of None \<Rightarrow> 30000 | Some ms \<Rightarrow> ms)
              (WatchIterator_query options
                 \<lparr>url = baseServer cfg @ path, searchParams = ps0, httpMethod = GET, signal = None\<rparr>)"
    by auto
  let ?q = "WatchIterator_query options
      \<lparr>url = baseServer cfg @ path, searchParams = ps0, httpMethod = GET, signal = None\<rparr>"
  from c have s: "searchParams ctx = searchParams ?q"
    by (simp add: setSignal_def)
  show "params_named (js ''watch'') (searchParams ctx) = [js ''true'']"
    unfolding s by (rule WatchIterator_query_named(1))
  show "params_named (js ''resourceVersion'') (searchParams ctx)
         = (case resourceVersion options of None \<Rightarrow> params_named (js ''resourceVersion'') ps0 | Some v \<Rightarrow> [toWellFormed v])"
    unfolding s by (simp add: WatchIterator_query_named(2) split: option.splits)
  show "params_named (js ''labelSelector'') (searchParams ctx)
         = (case labelSelector options of None \<Rightarrow> params_named (js ''labelSelector'') ps0 | Some v \<Rightarrow> [toWellFormed v])"
    unfolding s by (simp add: WatchIterator_query_named(3) split: option.splits)
  show "params_named (js ''fieldSelector'') (searchParams ctx)
         = (case fieldSelector options of None \<Rightarrow> params_named (js ''fieldSelector'') ps0 | Some v \<Rightarrow> [toWellFormed v])"
    unfolding s by (simp add: WatchIterator_query_named(4) split: option.splits)
  show "params_named (js ''allowWatchBookmarks'') (searchParams ctx)
         = (if allowWatchBookmarks options = Some False
            then params_named (js ''allowWatchBookmarks'') ps0
            else [js ''true''])"
    unfolding s by (simp add: WatchIterator_query_named(5) split: option.splits)
  show "signal ctx = Some (case timeoutMs options of None \<Rightarrow> 30000 | Some ms \<Rightarrow> ms)"
    by (subst c) (simp add: setSignal_def)
qed

lemma WatchIterator_request_url:
  "WatchIterator_request node cfg path options = Inr ctx \<Longrightarrow> \<exists>ps0. URL_new node (url ctx) = Inr ps0"
  using WatchIterator_request_params by blast

section \<open>The test inputs, evaluated\<close>

lemmas json_eval =
  JSON_parse_def js_def parse_value.simps parse_members.simps parse_elements.simps skip_ws_def
  is_json_ws_def cons_result_def parse_number_def parse_int_part_def parse_frac_def
  parse_exp_def parse_digits1_def is_digit_def hex4_def hex_val_def simple_escape_def
  parse_literal_def

lemmas line_defs =
  line_added_def line_deleted_def line_error_def line_unknown_def line_invalid_def
  line_blank_def

lemma mock_receives:
  "WatchIterator_receives test_node (createMockConfiguration test_server b c) pods_path no_options
     \<lparr>httpStatusCode = c, body_text = b\<rparr>"
  by (simp add: WatchIterator_receives_def WatchIterator_request_def createMockConfiguration_def
        test_node_def makeRequestContext_def no_options_def Let_def)

lemma server_receives:
  "WatchApi_receives test_node num (createTestServer test_node b c)
     (makeApiClient (createKubeConfigForServer test_server)) pods_path qp
     \<lparr>status = c, statusText = or_else (STATUS_CODES test_node c) (js ''unknown''), body = b\<rparr>"
  by (simp add: WatchApi_receives_def WatchApi_request_def createTestServer_def test_node_def
        makeApiClient_def createKubeConfigForServer_def WatchApi_new_def)

lemma test_node_200: "or_else (STATUS_CODES test_node 200) (js ''unknown'') = js ''OK''"
  by (simp add: test_node_def or_else_def js_def)

lemma test_node_500:
  "or_else (STATUS_CODES test_node 500) (js ''unknown'') = js ''Internal Server Error''"
  "or_else (STATUS_CODES test_node 500) (js ''Unknown Error'') = js ''Internal Server Error''"
  "or_else (STATUS_CODES test_node 500) (js ''Internal Server Error'') = js ''Internal Server Error''"
  by (simp_all add: test_node_def or_else_def js_def)

lemma lines_no_LF:
  "LF \<notin> set line_added" "LF \<notin> set line_deleted" "LF \<notin> set line_error"
  "LF \<notin> set line_unknown" "LF \<notin> set line_invalid" "LF \<notin> set line_blank"
  by (simp_all add: line_defs js_def)

lemma lines_no_ending:
  "\<forall>c\<in>set line_added. \<not> is_line_ending c" "\<forall>c\<in>set line_deleted. \<not> is_line_ending c"
  "\<forall>c\<in>set line_error. \<not> is_line_ending c" "\<forall>c\<in>set line_unknown. \<not> is_line_ending c"
  "\<forall>c\<in>set line_invalid. \<not> is_line_ending c" "\<forall>c\<in>set line_blank. \<not> is_line_ending c"
  by (simp_all add: line_defs js_def is_line_ending_def)




lemma lines_nonempty:
  "line_added \<noteq> []" "line_deleted \<noteq> []" "line_error \<noteq> []" "line_unknown \<noteq> []"
  "line_invalid \<noteq> []" "line_blank \<noteq> []"
  by (simp_all add: line_defs js_def)

lemma parse_line_invalid: "JSON_parse line_invalid = Inl SyntaxError"
  by (simp add: line_invalid_def json_eval)

lemma parse_line_added:
  "JSON_parse line_added
   = Inr (JObj [(js ''type'', JStr (js ''ADDED'')), (js ''object'', JObj [(js ''kind'', JStr (js ''Pod''))])])"
  by (simp add: line_added_def json_eval)

lemma parse_line_deleted:
  "JSON_parse line_deleted
   = Inr (JObj [(js ''type'', JStr (js ''DELETED'')), (js ''object'', JObj [(js ''kind'', JStr (js ''Pod''))])])"
  by (simp add: line_deleted_def json_eval)

lemma parse_line_error:
  "JSON_parse line_error
   = Inr (JObj [(js ''type'', JStr (js ''ERROR'')), (js ''object'', JObj [(js ''code'', JNum (js ''410''))])])"
  by (simp add: line_error_def json_eval)

lemma parse_line_unknown:
  "JSON_parse line_unknown
   = Inr (JObj [(js ''type'', JStr (js ''FOO'')), (js ''object'', JNum (js ''1'')),
                (js ''extra'', JBool True)])"
  by (simp add: line_unknown_def json_eval)

lemma trim_line_blank: "trim line_blank = []"
  by (simp add: line_blank_def js_def trim_def is_js_whitespace_def)

lemma frames_of_lines:
  "frame_events line_added = [event_added]"
  "frame_events line_deleted = [event_deleted]"
  "frame_events line_invalid = []"
  "frame_events line_blank = []"
  "frame_events line_error
   = [\<lparr>type = Some (JStr (js ''ERROR'')), object = Some (JObj [(js ''code'', JNum (js ''410''))])\<rparr>]"
  "frame_events line_unknown = [\<lparr>type = Some (JStr (js ''FOO'')), object = Some (JNum (js ''1''))\<rparr>]"
  by (simp_all add: frame_events_def decode_frame_def get_property_def parse_line_added
        parse_line_deleted parse_line_invalid parse_line_error parse_line_unknown
        event_added_def event_deleted_def frame_events_blank [unfolded frame_events_def decode_frame_def] trim_line_blank)
     (simp_all add: js_def)

lemma body_lines_lone_CR: "body_lines body_lone_CR = [line_added, line_deleted]"
  unfolding body_lone_CR_def
  by (rule body_lines_CR_line) (simp_all add: lines_no_ending lines_nonempty)

lemma body_lines_CRLF: "body_lines body_CRLF = [line_added, line_invalid, line_deleted]"
  by (simp add: body_CRLF_def body_lines_CRLF_line lines_no_ending body_lines_Nil)

lemma no_lone_CR_CRLF: "no_lone_CR body_CRLF"
  by (simp add: body_CRLF_def line_defs js_def)

lemma split_LF_lone_CR: "split_LF body_lone_CR = [body_lone_CR]"
  by (simp add: split_LF_def split_acc_line body_lone_CR_def lines_no_LF)

lemma parse_body_lone_CR: "JSON_parse body_lone_CR = Inl SyntaxError"
  by (simp add: body_lone_CR_def line_added_def line_deleted_def json_eval)

lemma kinds_of_whole_body: "spec_event_kinds [body_lone_CR] = []"
  by (simp add: parse_body_lone_CR)

lemma kinds_of_lines:
  "spec_event_kinds [line_added, line_deleted]
   = [Some (JStr (js ''ADDED'')), Some (JStr (js ''DELETED''))]"
  "spec_event_kinds [line_added, line_invalid, line_deleted]
   = [Some (JStr (js ''ADDED'')), Some (JStr (js ''DELETED''))]"
  by (simp_all add: parse_line_added parse_line_deleted parse_line_invalid type_field_def)
     (simp_all add: line_defs js_def trim_def is_js_whitespace_def)

lemmas request_eval =
  WatchIterator_request_def WatchApi_request_def makeRequestContext_def
  WatchIterator_query_def setQueryParam_def setSignal_def createMockConfiguration_def
  test_node_def makeApiClient_def createKubeConfigForServer_def WatchApi_new_def
  no_options_def test_options_def test_queryParams_def test_extra_queryParams_def
  test_Number_toString_def Let_def URLSearchParams_set_def is_high_surrogate_def
  is_low_surrogate_def

lemma request_test_options:
  "WatchIterator_request test_node (createMockConfiguration test_server [] 200) pods_path test_options
   = Inr \<lparr>url = test_server @ pods_path,
           searchParams =
             [(js ''watch'', js ''true''), (js ''resourceVersion'', js ''12345''),
              (js ''labelSelector'', js ''app=nginx''),
              (js ''fieldSelector'', js ''metadata.name=my-pod''),
              (js ''allowWatchBookmarks'', js ''true'')],
           httpMethod = GET, signal = Some 30000\<rparr>"
  by (simp add: request_eval js_def)

lemma request_test_queryParams:
  "WatchApi_request test_node (\<lambda>n::int. []) (makeApiClient (createKubeConfigForServer test_server)) pods_path test_queryParams
   = Inr \<lparr>watchURL = test_server @ pods_path,
           watchURL_searchParams =
             [(js ''watch'', js ''true''), (js ''resourceVersion'', js ''12345''),
              (js ''labelSelector'', js ''app=nginx''),
              (js ''fieldSelector'', js ''metadata.name=my-pod''),
              (js ''allowWatchBookmarks'', js ''true'')],
           requestInit_method = GET, requestInit_signal = 30000\<rparr>"
  by (simp add: request_eval js_def)

lemma request_no_options:
  "WatchIterator_request test_node (createMockConfiguration test_server [] 200) pods_path no_options
   = Inr \<lparr>url = test_server @ pods_path,
           searchParams = [(js ''watch'', js ''true''), (js ''allowWatchBookmarks'', js ''true'')],
           httpMethod = GET, signal = Some 30000\<rparr>"
  by (simp add: request_eval js_def)

lemma request_no_queryParams:
  "WatchApi_request test_node (\<lambda>n::int. []) (makeApiClient (createKubeConfigForServer test_server)) pods_path []
   = Inr \<lparr>watchURL = test_server @ pods_path,
           watchURL_searchParams = [(js ''watch'', js ''true'')],
           requestInit_method = GET, requestInit_signal = 30000\<rparr>"
  by (simp add: request_eval js_def)

lemma request_extra_queryParams:
  "WatchApi_request test_node test_Number_toString (makeApiClient (createKubeConfigForServer test_server)) pods_path test_extra_queryParams
   = Inr \<lparr>watchURL = test_server @ pods_path,
           watchURL_searchParams =
             [(js ''watch'', js ''true''), (js ''limit'', js ''5''),
              (js ''labelSelector'', js ''app=nginx'')],
           requestInit_method = GET, requestInit_signal = 30000\<rparr>"
  by (simp add: request_eval js_def)

lemma test_node_URL: "URL_new test_node href = Inr []"
  by (simp add: test_node_def)

section \<open>The claims\<close>

text \<open>
  C1 (as amended). The lines of a body are the texts between its line terminators
  LF, CR LF and CR. When a response with status 200 is consumed and no line is the
  bare literal \<^verbatim>\<open>null\<close> (as in every body whose frames are JSON objects), WatchApi
  yields events whose kinds are, in order and one for one, the \<^verbatim>\<open>type\<close> fields of the
  lines that are not blank and parse as JSON, and the sequence ends without a failure.
  WatchIterator does so when every carriage return of the body is followed by a line
  feed: it cuts the body at LF only.
\<close>

theorem watch_event_kinds_in_order:
  "(WatchApi_receives node num fetch this path' qp r' \<and> status r' = 200 \<and>
      (\<forall>l\<in>set (body_lines (body r')). JSON_parse l \<noteq> Inr JNull)
    \<longrightarrow> map type (fst (WatchApi_watch node num fetch this path' qp))
          = spec_event_kinds (body_lines (body r'))
        \<and> snd (WatchApi_watch node num fetch this path' qp) = None)
   \<and> (WatchIterator_receives node cfg path options r \<and> httpStatusCode r = 200 \<and>
      no_lone_CR (body_text r) \<and>
      (\<forall>l\<in>set (body_lines (body_text r)). JSON_parse l \<noteq> Inr JNull)
    \<longrightarrow> map type (fst (WatchIterator_watch node cfg path options))
          = spec_event_kinds (body_lines (body_text r))
        \<and> snd (WatchIterator_watch node cfg path options) = None)"
proof (intro conjI impI)
  assume h: "WatchApi_receives node num fetch this path' qp r' \<and> status r' = 200 \<and>
      (\<forall>l\<in>set (body_lines (body r')). JSON_parse l \<noteq> Inr JNull)"
  then have w: "WatchApi_watch node num fetch this path' qp = (WatchApi_frames (body r'), None)"
    by (simp add: WatchApi_watch_ok)
  from h show "map type (fst (WatchApi_watch node num fetch this path' qp))
      = spec_event_kinds (body_lines (body r'))"
    by (simp add: w WA_frames_body_lines kinds_decode_lines)
  show "snd (WatchApi_watch node num fetch this path' qp) = None"
    by (simp add: w)
next
  assume h: "WatchIterator_receives node cfg path options r \<and> httpStatusCode r = 200 \<and>
      no_lone_CR (body_text r) \<and>
      (\<forall>l\<in>set (body_lines (body_text r)). JSON_parse l \<noteq> Inr JNull)"
  then have w: "WatchIterator_watch node cfg path options = (WatchIterator_frames (body_text r), None)"
    by (simp add: WatchIterator_watch_ok)
  from h show "map type (fst (WatchIterator_watch node cfg path options))
      = spec_event_kinds (body_lines (body_text r))"
    by (simp add: w WI_frames_body_lines kinds_decode_lines)
  show "snd (WatchIterator_watch node cfg path options) = None"
    by (simp add: w)
qed

text \<open>
  The claim as it stands fails on a body whose two frames are separated by a lone
  carriage return. Its lines are the two frames, and WatchApi yields both events, but
  WatchIterator yields none; and if the lines are taken to be the pieces between line
  feeds, there is one line, it is not valid JSON, and WatchApi yields two events
  where the claim has none.
\<close>

theorem watch_event_kinds_counterexample:
  "body_lines body_lone_CR = [line_added, line_deleted]
   \<and> spec_event_kinds (body_lines body_lone_CR)
       = [Some (JStr (js ''ADDED'')), Some (JStr (js ''DELETED''))]
   \<and> WatchIterator_watch test_node (createMockConfiguration test_server body_lone_CR 200)
         pods_path no_options
       = ([], None)
   \<and> split_LF body_lone_CR = [body_lone_CR]
   \<and> spec_event_kinds (split_LF body_lone_CR) = []
   \<and> WatchApi_watch test_node (\<lambda>n::int. []) (createTestServer test_node body_lone_CR 200)
         (makeApiClient (createKubeConfigForServer test_server)) pods_path []
       = ([event_added, event_deleted], None)"
proof -
  have n: "LF \<notin> set body_lone_CR"
    by (simp add: body_lone_CR_def lines_no_LF)
  have i: "WatchIterator_watch test_node (createMockConfiguration test_server body_lone_CR 200)
      pods_path no_options = (WatchIterator_frames body_lone_CR, None)"
    using WatchIterator_watch_ok [OF mock_receives [of body_lone_CR 200]] by simp
  have a: "WatchApi_watch test_node (\<lambda>n::int. []) (createTestServer test_node body_lone_CR 200)
      (makeApiClient (createKubeConfigForServer test_server)) pods_path []
      = (WatchApi_frames body_lone_CR, None)"
    using WatchApi_watch_ok [OF server_receives [of "\<lambda>n::int. []" body_lone_CR 200 "[]"]]
    by simp
  show ?thesis
    by (simp add: i a WI_frames_line [OF n] frame_events_skipped parse_body_lone_CR
          WA_frames_body_lines body_lines_lone_CR decode_lines_concat frames_of_lines
          kinds_of_lines kinds_of_whole_body split_LF_lone_CR del: spec_event_kinds.simps)
qed

theorem watch_event_kinds_in_order_witness:
  "list_all (\<lambda>l. JSON_parse l \<noteq> Inr JNull) (body_lines body_lone_CR)
   \<and> map type (fst (WatchApi_watch test_node (\<lambda>n::int. []) (createTestServer test_node body_lone_CR 200)
       (makeApiClient (createKubeConfigForServer test_server)) pods_path []))
       = [Some (JStr (js ''ADDED'')), Some (JStr (js ''DELETED''))]
   \<and> no_lone_CR body_CRLF
   \<and> body_lines body_CRLF = [line_added, line_invalid, line_deleted]
   \<and> list_all (\<lambda>l. JSON_parse l \<noteq> Inr JNull) (body_lines body_CRLF)
   \<and> map type (fst (WatchIterator_watch test_node (createMockConfiguration test_server body_CRLF 200) pods_path no_options))
       = [Some (JStr (js ''ADDED'')), Some (JStr (js ''DELETED''))]"
proof -
  have n: "\<forall>l\<in>set [line_added, line_deleted]. JSON_parse l \<noteq> Inr JNull"
    "\<forall>l\<in>set [line_added, line_invalid, line_deleted]. JSON_parse l \<noteq> Inr JNull"
    by (simp_all add: parse_line_added parse_line_deleted parse_line_invalid)
  note t = watch_event_kinds_in_order [of test_node "\<lambda>n::int. []"
      "createTestServer test_node body_lone_CR 200"
      "makeApiClient (createKubeConfigForServer test_server)" pods_path "[]"
      "\<lparr>status = 200, statusText = js ''OK'', body = body_lone_CR\<rparr>"
      "createMockConfiguration test_server body_CRLF 200" pods_path no_options
      "\<lparr>httpStatusCode = 200, body_text = body_CRLF\<rparr>"]
  from t n mock_receives [of body_CRLF 200]
    server_receives [of "\<lambda>n::int. []" body_lone_CR 200 "[]"]
  show ?thesis
    by (simp add: body_lines_lone_CR body_lines_CRLF no_lone_CR_CRLF kinds_of_lines
          test_node_200 list_all_iff del: spec_event_kinds.simps)
qed






text \<open>
  C4. A response whose status is not 200 yields no event and ends the sequence with one
  failure that carries the status code; the body is not decoded. WatchIterator raises
  a WatchError, WatchApi an ApiException.
\<close>

theorem non_200_fails_with_status:
  "(WatchIterator_receives node cfg path options r \<and> httpStatusCode r \<noteq> 200
    \<longrightarrow> fst (WatchIterator_watch node cfg path options) = []
        \<and> (\<exists>f. snd (WatchIterator_watch node cfg path options) = Some f
               \<and> failure_statusCode f = Some (httpStatusCode r)))
   \<and> (WatchApi_receives node num fetch this path' qp r' \<and> status r' \<noteq> 200
    \<longrightarrow> fst (WatchApi_watch node num fetch this path' qp) = []
        \<and> (\<exists>f. snd (WatchApi_watch node num fetch this path' qp) = Some f
               \<and> failure_statusCode f = Some (status r')))"
proof (intro conjI impI)
  assume h: "WatchIterator_receives node cfg path options r \<and> httpStatusCode r \<noteq> 200"
  then have w: "WatchIterator_watch node cfg path options =
     ([], Some (WatchError (or_else (STATUS_CODES node (httpStatusCode r)) (js ''Unknown Error''))
                  (Some (httpStatusCode r))))"
    by (simp add: WatchIterator_watch_fail)
  show "fst (WatchIterator_watch node cfg path options) = []"
    by (simp add: w)
  show "\<exists>f. snd (WatchIterator_watch node cfg path options) = Some f
       \<and> failure_statusCode f = Some (httpStatusCode r)"
    by (simp add: w)
next
  assume h: "WatchApi_receives node num fetch this path' qp r' \<and> status r' \<noteq> 200"
  then have w: "WatchApi_watch node num fetch this path' qp =
     ([], Some (ApiException (status r')
                  (if statusText r' \<noteq> [] then statusText r'
                   else or_else (STATUS_CODES node (status r')) (js ''Internal Server Error''))
                  (body r')))"
    by (simp add: WatchApi_watch_fail)
  show "fst (WatchApi_watch node num fetch this path' qp) = []"
    by (simp add: w)
  show "\<exists>f. snd (WatchApi_watch node num fetch this path' qp) = Some f
       \<and> failure_statusCode f = Some (status r')"
    by (simp add: w)
qed

theorem non_200_fails_with_status_witness:
  "fst (WatchIterator_watch test_node (createMockConfiguration test_server (js ''Internal Server Error'') 500) pods_path no_options) = []
   \<and> (\<exists>f. snd (WatchIterator_watch test_node (createMockConfiguration test_server (js ''Internal Server Error'') 500) pods_path no_options) = Some f
          \<and> failure_statusCode f = Some 500)
   \<and> fst (WatchApi_watch test_node (\<lambda>n::int. []) (createTestServer test_node (js ''Internal Server Error'') 500)
       (makeApiClient (createKubeConfigForServer test_server)) pods_path []) = []
   \<and> (\<exists>f. snd (WatchApi_watch test_node (\<lambda>n::int. []) (createTestServer test_node (js ''Internal Server Error'') 500)
       (makeApiClient (createKubeConfigForServer test_server)) pods_path []) = Some f
          \<and> failure_statusCode f = Some 500)"
  using non_200_fails_with_status [of test_node
      "createMockConfiguration test_server (js ''Internal Server Error'') 500" pods_path no_options
      "\<lparr>httpStatusCode = 500, body_text = js ''Internal Server Error''\<rparr>"
      "\<lambda>n::int. []" "createTestServer test_node (js ''Internal Server Error'') 500"
      "makeApiClient (createKubeConfigForServer test_server)" pods_path "[]"
      "\<lparr>status = 500, statusText = js ''Internal Server Error'',
        body = js ''Internal Server Error''\<rparr>"]
    mock_receives [of "js ''Internal Server Error''" 500]
    server_receives [of "\<lambda>n::int. []" "js ''Internal Server Error''" 500 "[]"]
  by (simp add: test_node_500)

text \<open>
  C5 (as amended). For a response whose status is not 200, the ApiException of WatchApi
  carries the status code, a description (the status text of the response, else the
  standard reason phrase, else "Internal Server Error") and the text of the body; the
  WatchError of WatchIterator carries the status code and a description (the standard
  reason phrase, else "Unknown Error") and no body.
\<close>

theorem non_200_failure_details:
  "(WatchApi_receives node num fetch this path' qp r' \<and> status r' \<noteq> 200
    \<longrightarrow> (\<exists>f. snd (WatchApi_watch node num fetch this path' qp) = Some f
            \<and> failure_statusCode f = Some (status r')
            \<and> failure_message f =
                Some (if statusText r' \<noteq> [] then statusText r'
                      else or_else (STATUS_CODES node (status r')) (js ''Internal Server Error''))
            \<and> failure_body f = Some (body r')))
   \<and> (WatchIterator_receives node cfg path options r \<and> httpStatusCode r \<noteq> 200
    \<longrightarrow> (\<exists>f. snd (WatchIterator_watch node cfg path options) = Some f
            \<and> failure_statusCode f = Some (httpStatusCode r)
            \<and> failure_message f =
                Some (or_else (STATUS_CODES node (httpStatusCode r)) (js ''Unknown Error''))
            \<and> failure_body f = None))"
proof (intro conjI impI)
  assume "WatchApi_receives node num fetch this path' qp r' \<and> status r' \<noteq> 200"
  then have "WatchApi_watch node num fetch this path' qp =
     ([], Some (ApiException (status r')
                  (if statusText r' \<noteq> [] then statusText r'
                   else or_else (STATUS_CODES node (status r')) (js ''Internal Server Error''))
                  (body r')))"
    by (simp add: WatchApi_watch_fail)
  then show "\<exists>f. snd (WatchApi_watch node num fetch this path' qp) = Some f
            \<and> failure_statusCode f = Some (status r')
            \<and> failure_message f =
                Some (if statusText r' \<noteq> [] then statusText r'
                      else or_else (STATUS_CODES node (status r')) (js ''Internal Server Error''))
            \<and> failure_body f = Some (body r')"
    by simp
next
  assume "WatchIterator_receives node cfg path options r \<and> httpStatusCode r \<noteq> 200"
  then have "WatchIterator_watch node cfg path options =
     ([], Some (WatchError (or_else (STATUS_CODES node (httpStatusCode r)) (js ''Unknown Error''))
                  (Some (httpStatusCode r))))"
    by (simp add: WatchIterator_watch_fail)
  then show "\<exists>f. snd (WatchIterator_watch node cfg path options) = Some f
            \<and> failure_statusCode f = Some (httpStatusCode r)
            \<and> failure_message f =
                Some (or_else (STATUS_CODES node (httpStatusCode r)) (js ''Unknown Error''))
            \<and> failure_body f = None"
    by simp
qed

theorem failure_carries_body_counterexample:
  "WatchIterator_watch test_node (createMockConfiguration test_server (js ''boom'') 500) pods_path no_options
   = ([], Some (WatchError (js ''Internal Server Error'') (Some 500)))
   \<and> WatchIterator_watch test_node (createMockConfiguration test_server (js ''bang'') 500) pods_path no_options
   = ([], Some (WatchError (js ''Internal Server Error'') (Some 500)))
   \<and> failure_body (WatchError (js ''Internal Server Error'') (Some 500)) = None"
  using WatchIterator_watch_fail [OF mock_receives [of "js ''boom''" 500]]
    WatchIterator_watch_fail [OF mock_receives [of "js ''bang''" 500]]
  by (simp add: test_node_500)

theorem non_200_failure_details_witness:
  "(\<exists>f. snd (WatchApi_watch test_node (\<lambda>n::int. []) (createTestServer test_node (js ''boom'') 500)
       (makeApiClient (createKubeConfigForServer test_server)) pods_path []) = Some f
        \<and> failure_statusCode f = Some 500
        \<and> failure_message f = Some (js ''Internal Server Error'')
        \<and> failure_body f = Some (js ''boom''))
   \<and> (\<exists>f. snd (WatchIterator_watch test_node (createMockConfiguration test_server (js ''boom'') 500) pods_path no_options) = Some f
        \<and> failure_statusCode f = Some 500
        \<and> failure_message f = Some (js ''Internal Server Error'')
        \<and> failure_body f = None)"
  using non_200_failure_details [of test_node "\<lambda>n::int. []"
      "createTestServer test_node (js ''boom'') 500"
      "makeApiClient (createKubeConfigForServer test_server)" pods_path "[]"
      "\<lparr>status = 500, statusText = js ''Internal Server Error'', body = js ''boom''\<rparr>"
      "createMockConfiguration test_server (js ''boom'') 500" pods_path no_options
      "\<lparr>httpStatusCode = 500, body_text = js ''boom''\<rparr>"]
    mock_receives [of "js ''boom''" 500]
    server_receives [of "\<lambda>n::int. []" "js ''boom''" 500 "[]"]
  by (simp add: test_node_500) (simp add: js_def)

text \<open>
  C7 (as amended). WatchIterator: when \<^verbatim>\<open>timeoutMs\<close> is unspecified the timeout of the
  abort signal is 30 000 ms, and when \<^verbatim>\<open>allowWatchBookmarks\<close> is unspecified the request
  carries \<^verbatim>\<open>allowWatchBookmarks=true\<close>. WatchApi: a new instance has a request timeout
  of 30 000 ms; it has no default for \<^verbatim>\<open>allowWatchBookmarks\<close>, and a request whose map
  of query parameters gives no value for it carries none (beyond what the address
  already holds).
\<close>

theorem watch_defaults:
  "(WatchIterator_request node cfg path options = Inr ctx
    \<longrightarrow> (timeoutMs options = None \<longrightarrow> signal ctx = Some 30000)
      \<and> (allowWatchBookmarks options = None
          \<longrightarrow> params_named (js ''allowWatchBookmarks'') (searchParams ctx) = [js ''true'']))
   \<and> (WatchApi_request node num (WatchApi_new auth) path' qp = Inr req
    \<longrightarrow> requestInit_signal req = 30000)
   \<and> (WatchApi_request node num this path' qp = Inr req' \<and> URL_new node (watchURL req') = Inr ps0
      \<and> (\<forall>v. (js ''allowWatchBookmarks'', Some v) \<notin> set qp)
    \<longrightarrow> params_named (js ''allowWatchBookmarks'') (watchURL_searchParams req')
        = params_named (js ''allowWatchBookmarks'') ps0)"
proof (intro conjI impI)
  assume h: "WatchIterator_request node cfg path options = Inr ctx"
  then obtain ps0' where u: "URL_new node (url ctx) = Inr ps0'"
    using WatchIterator_request_url by blast
  note n = WatchIterator_request_named [OF h u]
  { assume "timeoutMs options = None"
    with n(6) show "signal ctx = Some 30000" by simp }
  { assume "allowWatchBookmarks options = None"
    with n(5) show "params_named (js ''allowWatchBookmarks'') (searchParams ctx) = [js ''true'']"
      by simp }
next
  assume "WatchApi_request node num (WatchApi_new auth) path' qp = Inr req"
  then show "requestInit_signal req = 30000"
    by (simp add: WatchApi_request_timeout WatchApi_new_def)
next
  assume h: "WatchApi_request node num this path' qp = Inr req' \<and> URL_new node (watchURL req') = Inr ps0
      \<and> (\<forall>v. (js ''allowWatchBookmarks'', Some v) \<notin> set qp)"
  then have "watchURL_searchParams req'
      = set_queryParams num qp (URLSearchParams_set (js ''watch'') (js ''true'') ps0)"
    using WatchApi_request_params [of node num this path' qp req'] by auto
  with h show "params_named (js ''allowWatchBookmarks'') (watchURL_searchParams req')
        = params_named (js ''allowWatchBookmarks'') ps0"
    by (simp add: set_queryParams_other_name names_no_replacement params_named_set_other
          toWellFormed_names option_names_distinct [symmetric])
qed

theorem watch_defaults_counterexample:
  "WatchApi_request test_node (\<lambda>n::int. []) (makeApiClient (createKubeConfigForServer test_server)) pods_path []
   = Inr \<lparr>watchURL = test_server @ pods_path,
           watchURL_searchParams = [(js ''watch'', js ''true'')],
           requestInit_method = GET, requestInit_signal = 30000\<rparr>
   \<and> params_named (js ''allowWatchBookmarks'') [(js ''watch'', js ''true'')] = []"
  by (simp add: request_no_queryParams params_named_def js_def)

theorem watch_defaults_witness:
  "WatchIterator_request test_node (createMockConfiguration test_server [] 200) pods_path no_options
     = Inr \<lparr>url = test_server @ pods_path,
           searchParams = [(js ''watch'', js ''true''), (js ''allowWatchBookmarks'', js ''true'')],
           httpMethod = GET, signal = Some 30000\<rparr>
   \<and> signal \<lparr>url = test_server @ pods_path,
           searchParams = [(js ''watch'', js ''true''), (js ''allowWatchBookmarks'', js ''true'')],
           httpMethod = GET, signal = Some 30000\<rparr> = Some 30000
   \<and> params_named (js ''allowWatchBookmarks'') (searchParams \<lparr>url = test_server @ pods_path,
           searchParams = [(js ''watch'', js ''true''), (js ''allowWatchBookmarks'', js ''true'')],
           httpMethod = GET, signal = Some 30000\<rparr>) = [js ''true'']
   \<and> WatchApi_request test_node (\<lambda>n::int. []) (WatchApi_new (Some (KubeConfigAuth (createKubeConfigForServer test_server)))) pods_path []
     = Inr \<lparr>watchURL = test_server @ pods_path,
           watchURL_searchParams = [(js ''watch'', js ''true'')],
           requestInit_method = GET, requestInit_signal = 30000\<rparr>
   \<and> requestInit_signal \<lparr>watchURL = test_server @ pods_path,
           watchURL_searchParams = [(js ''watch'', js ''true'')],
           requestInit_method = GET, requestInit_signal = 30000\<rparr> = 30000
   \<and> params_named (js ''allowWatchBookmarks'') (watchURL_searchParams \<lparr>watchURL = test_server @ pods_path,
           watchURL_searchParams = [(js ''watch'', js ''true'')],
           requestInit_method = GET, requestInit_signal = 30000\<rparr>) = []"
proof -
  note t = watch_defaults [of test_node "createMockConfiguration test_server [] 200" pods_path no_options
      "\<lparr>url = test_server @ pods_path,
           searchParams = [(js ''watch'', js ''true''), (js ''allowWatchBookmarks'', js ''true'')],
           httpMethod = GET, signal = Some 30000\<rparr>"
      "\<lambda>n::int. []" "Some (KubeConfigAuth (createKubeConfigForServer test_server))" pods_path "[]"
      "\<lparr>watchURL = test_server @ pods_path,
           watchURL_searchParams = [(js ''watch'', js ''true'')],
           requestInit_method = GET, requestInit_signal = 30000\<rparr>"
      "makeApiClient (createKubeConfigForServer test_server)"
      "\<lparr>watchURL = test_server @ pods_path,
           watchURL_searchParams = [(js ''watch'', js ''true'')],
           requestInit_method = GET, requestInit_signal = 30000\<rparr>" "[]"]
  have r: "WatchApi_request test_node (\<lambda>n::int. []) (WatchApi_new (Some (KubeConfigAuth (createKubeConfigForServer test_server)))) pods_path []
     = Inr \<lparr>watchURL = test_server @ pods_path,
           watchURL_searchParams = [(js ''watch'', js ''true'')],
           requestInit_method = GET, requestInit_signal = 30000\<rparr>"
    using request_no_queryParams by (simp add: makeApiClient_def)
  have o: "timeoutMs no_options = None" "allowWatchBookmarks no_options = None"
    by (simp_all add: no_options_def)
  from t request_no_options o
  have a: "signal \<lparr>url = test_server @ pods_path,
           searchParams = [(js ''watch'', js ''true''), (js ''allowWatchBookmarks'', js ''true'')],
           httpMethod = GET, signal = Some 30000\<rparr> = Some 30000"
    and b: "params_named (js ''allowWatchBookmarks'') (searchParams \<lparr>url = test_server @ pods_path,
           searchParams = [(js ''watch'', js ''true''), (js ''allowWatchBookmarks'', js ''true'')],
           httpMethod = GET, signal = Some 30000\<rparr>) = [js ''true'']"
    by blast+
  from t r have c: "requestInit_signal \<lparr>watchURL = test_server @ pods_path,
           watchURL_searchParams = [(js ''watch'', js ''true'')],
           requestInit_method = GET, requestInit_signal = 30000\<rparr> = 30000" by blast
  from t request_no_queryParams test_node_URL
  have d: "params_named (js ''allowWatchBookmarks'') (watchURL_searchParams \<lparr>watchURL = test_server @ pods_path,
           watchURL_searchParams = [(js ''watch'', js ''true'')],
           requestInit_method = GET, requestInit_signal = 30000\<rparr>)
      = params_named (js ''allowWatchBookmarks'') []"
    by simp
  from a b c d r request_no_options show ?thesis by (simp add: params_named_def)
qed






end
